theory Spec2Isabelle
  imports Complex_Main
begin

section \<open>Values, thrown values and settled promises\<close>

text \<open>
  The TypeScript type \<^verbatim>\<open>unknown\<close> is modelled by a datatype of JavaScript values.
  An object is an association list from property names to values
  (\<^verbatim>\<open>Record<string, unknown>\<close>).
\<close>

datatype jsval =
    JUndefined
  | JNull
  | JBool bool
  | JNum real
  | JStr string
  | JArr "jsval list"
  | JObj "(string \<times> jsval) list"

type_synonym params = "(string \<times> jsval) list"

text \<open>
  A thrown value is either an instance of \<^verbatim>\<open>Error\<close> (it carries a message) or any
  other value; this is the distinction \<^verbatim>\<open>error instanceof Error\<close> reads.
\<close>

datatype thrown = JsError string | NonError jsval

text \<open>
  An \<^verbatim>\<open>async\<close> function returns a promise. The model records how the promise
  settles: fulfilled with a value, or rejected with a thrown value.
\<close>

datatype 'a promise = Fulfilled 'a | Rejected thrown

section \<open>Tool types (types.ts)\<close>

text \<open>
  The three interfaces of types.ts. Field names carry a prefix because the interfaces
  share the names \<^verbatim>\<open>id\<close>, \<^verbatim>\<open>name\<close> and \<^verbatim>\<open>parameters\<close>:
  \<open>tool_name\<close>, \<open>tool_parameters\<close> are \<^verbatim>\<open>ToolDefinition.name/.parameters\<close>;
  \<open>inv_id\<close>, \<open>inv_name\<close>, \<open>inv_parameters\<close> are the fields of
  \<^verbatim>\<open>ToolInvocation\<close>; \<open>res_id\<close>, \<open>res_name\<close> are \<^verbatim>\<open>ToolResult.id/.name\<close>.
  An optional property (\<^verbatim>\<open>result?\<close>, \<^verbatim>\<open>error?\<close>, \<^verbatim>\<open>durationMs?\<close>) is an
  \<open>option\<close>: \<open>None\<close> when the object literal does not write the property.
\<close>

record ToolDefinition =
  tool_name :: string
  description :: string
  tool_parameters :: jsval
  execute :: "params \<Rightarrow> jsval promise"

record ToolInvocation =
  inv_id :: string
  inv_name :: string
  inv_parameters :: params

record ToolResult =
  res_id :: string
  res_name :: string
  result :: "jsval option"
  error :: "string option"
  durationMs :: "int option"

section \<open>Tool registry (registry.ts)\<close>

text \<open>
  The private field \<^verbatim>\<open>tools\<close> is a JavaScript \<^verbatim>\<open>Map\<close>, which keeps its entries in
  insertion order; it is modelled as an association list in that order.
  \<open>Map_set\<close> is \<^verbatim>\<open>Map.prototype.set\<close>: it overwrites the value of a present key in
  place and appends a new key at the end.
\<close>

type_synonym registry = "(string \<times> ToolDefinition) list"

fun Map_set :: "string \<Rightarrow> 'v \<Rightarrow> (string \<times> 'v) list \<Rightarrow> (string \<times> 'v) list" where
  "Map_set k v [] = [(k, v)]"
| "Map_set k v ((k', v') # kvs) =
     (if k' = k then (k, v) # kvs else (k', v') # Map_set k v kvs)"

definition has :: "registry \<Rightarrow> string \<Rightarrow> bool" where
  "has tools n = (map_of tools n \<noteq> None)"

definition get :: "registry \<Rightarrow> string \<Rightarrow> ToolDefinition option" where
  "get tools n = map_of tools n"

definition getAll :: "registry \<Rightarrow> ToolDefinition list" where
  "getAll tools = map snd tools"

definition dquote :: string where
  "dquote = [CHR 0x22]"

text \<open>
  \<^verbatim>\<open>register\<close> mutates the registry or throws. The model returns what the call did
  (\<open>Inl\<close> the thrown value, \<open>Inr ()\<close> a normal return) together with the registry
  after the call.
\<close>

definition register :: "ToolDefinition \<Rightarrow> registry \<Rightarrow> (thrown + unit) \<times> registry" where
  "register tool tools =
     (if has tools (tool_name tool)
      then (Inl (JsError (''Tool '' @ dquote @ tool_name tool @ dquote @ '' is already registered'')), tools)
      else (Inr (), Map_set (tool_name tool) tool tools))"

section \<open>Tool executor (executor.ts)\<close>

text \<open>
  \<^verbatim>\<open>performance.now()\<close> is read twice on every path of \<^verbatim>\<open>executeTool\<close>: at entry
  (\<open>startTime\<close>) and when the result object is built (\<open>endTime\<close>). Readings are
  milliseconds with a fractional part; the rounding of the floating-point subtraction
  is not modelled. \<^verbatim>\<open>Math.round\<close> rounds to the nearest integer, a half upwards.
\<close>

record clock =
  startTime :: real
  endTime :: real

definition Math_round :: "real \<Rightarrow> int" where
  "Math_round x = \<lfloor>x + 1 / 2\<rfloor>"

text \<open>
  The body of the \<^verbatim>\<open>try\<close> block up to the \<^verbatim>\<open>await\<close>: the thrown value
  (\<open>Inl\<close>) that reaches the \<^verbatim>\<open>catch\<close> clause, or the value the handler's promise
  was fulfilled with (\<open>Inr\<close>). A handler is taken to settle; the executor has no timeout.
\<close>

definition executeTool_try :: "registry \<Rightarrow> ToolInvocation \<Rightarrow> thrown + jsval" where
  "executeTool_try tools invocation =
     (case get tools (inv_name invocation) of
        None \<Rightarrow> Inl (JsError (''Tool '' @ dquote @ inv_name invocation @ dquote @ '' not found''))
      | Some tool \<Rightarrow>
          (case execute tool (inv_parameters invocation) of
             Fulfilled v \<Rightarrow> Inr v
           | Rejected e \<Rightarrow> Inl e))"

definition executeTool :: "registry \<Rightarrow> clock \<Rightarrow> ToolInvocation \<Rightarrow> ToolResult promise" where
  "executeTool tools clk invocation =
     (case executeTool_try tools invocation of
        Inr v \<Rightarrow>
          Fulfilled \<lparr> res_id = inv_id invocation, res_name = inv_name invocation,
            result = Some v, error = None,
            durationMs = Some (Math_round (endTime clk - startTime clk)) \<rparr>
      | Inl e \<Rightarrow>
          Fulfilled \<lparr> res_id = inv_id invocation, res_name = inv_name invocation,
            result = None,
            error = Some (case e of JsError message \<Rightarrow> message | NonError _ \<Rightarrow> ''Unknown error''),
            durationMs = Some (Math_round (endTime clk - startTime clk)) \<rparr>)"

text \<open>
  \<^verbatim>\<open>Promise.all\<close> over settled promises: fulfilled with the values in input order
  when every promise is fulfilled, rejected as soon as one is rejected (the model
  reports the rejection that comes first in the list).
\<close>

fun Promise_all :: "'a promise list \<Rightarrow> 'a list promise" where
  "Promise_all [] = Fulfilled []"
| "Promise_all (p # ps) =
     (case p of
        Rejected e \<Rightarrow> Rejected e
      | Fulfilled v \<Rightarrow>
          (case Promise_all ps of
             Rejected e \<Rightarrow> Rejected e
           | Fulfilled vs \<Rightarrow> Fulfilled (v # vs)))"

text \<open>
  \<^verbatim>\<open>executeTools\<close> maps \<^verbatim>\<open>executeTool\<close> over the invocations and joins the
  promises. Each call reads the clock for itself: \<open>clks i\<close> are the two readings of
  the call at index \<open>i\<close>.
\<close>

definition executeTools :: "registry \<Rightarrow> (nat \<Rightarrow> clock) \<Rightarrow> ToolInvocation list \<Rightarrow> ToolResult list promise" where
  "executeTools tools clks invocations =
     Promise_all (map (\<lambda>(i, invocation). executeTool tools (clks i) invocation)
                      (enumerate 0 invocations))"

section \<open>Strings\<close>

text \<open>
  A string is a list of code units; the model covers code units below 256. The
  character classes are those of the regular expressions of date-parser.ts, which
  carry no flag: \<^verbatim>\<open>\d\<close> is \<^verbatim>\<open>[0-9]\<close>, \<^verbatim>\<open>\w\<close> is \<^verbatim>\<open>[A-Za-z0-9_]\<close>, and
  \<^verbatim>\<open>\s\<close> is the white space and line terminators that \<^verbatim>\<open>trim\<close> strips as well
  (tab, line feed, vertical tab, form feed, carriage return, space, no-break space).
\<close>

definition is_digit :: "char \<Rightarrow> bool" where
  "is_digit c = (c \<in> set ''0123456789'')"

definition is_word :: "char \<Rightarrow> bool" where
  "is_word c =
     (c \<in> set ''abcdefghijklmnopqrstuvwxyzABCDEFGHIJKLMNOPQRSTUVWXYZ0123456789_'')"

definition is_space :: "char \<Rightarrow> bool" where
  "is_space c =
     (c \<in> {CHR 0x09, CHR 0x0A, CHR 0x0B, CHR 0x0C, CHR 0x0D, CHR 0x20, CHR 0xA0})"

definition trim :: "string \<Rightarrow> string" where
  "trim s = rev (dropWhile is_space (rev (dropWhile is_space s)))"

definition lower_char :: "char \<Rightarrow> char" where
  "lower_char c =
     (let n = (of_char c :: nat) in
      if (65 \<le> n \<and> n \<le> 90) \<or> (192 \<le> n \<and> n \<le> 222 \<and> n \<noteq> 215)
      then char_of (n + 32) else c)"

definition toLowerCase :: "string \<Rightarrow> string" where
  "toLowerCase s = map lower_char s"

text \<open>Decimal numerals: reading a digit string and \<^verbatim>\<open>Number.prototype.toString\<close>.\<close>

definition digit_value :: "char \<Rightarrow> nat" where
  "digit_value c = of_char c - 48"

definition parseDigits :: "string \<Rightarrow> nat" where
  "parseDigits s = foldl (\<lambda>n c. 10 * n + digit_value c) 0 s"

definition digit_char :: "nat \<Rightarrow> char" where
  "digit_char n = ''0123456789'' ! n"

fun toString :: "nat \<Rightarrow> string" where
  "toString n = (if n < 10 then [digit_char n] else toString (n div 10) @ [digit_char (n mod 10)])"

declare toString.simps [simp del]

definition padStart :: "nat \<Rightarrow> char \<Rightarrow> string \<Rightarrow> string" where
  "padStart len c s = replicate (len - length s) c @ s"

text \<open>
  \<^verbatim>\<open>parseInt(s, 10)\<close> on a string without leading white space or sign: the value of
  the longest prefix of digits, \<open>None\<close> (\<^verbatim>\<open>NaN\<close>) when there is none. Characters
  after the digits are ignored. The value is exact here; a double loses precision above
  \<open>2^53\<close>, where a quantity of days leads past the last time value either way.
\<close>

definition parseInt :: "string \<Rightarrow> nat option" where
  "parseInt s =
     (let ds = takeWhile is_digit s in if ds = [] then None else Some (parseDigits ds))"

section \<open>Dates (the date-fns functions that date-parser.ts imports)\<close>

text \<open>
  A \<^verbatim>\<open>Date\<close> holds a time value, the milliseconds since 1970-01-01T00:00:00Z, or is
  the invalid date (\<^verbatim>\<open>NaN\<close>). A time value is at most \<open>8.64e15\<close> in absolute value:
  \<open>TimeClip\<close> turns anything beyond that instant into the invalid date. The last valid
  instant is the first millisecond of the day 100000000, so a date on that day with any
  later time of day is invalid.

  The methods that read or set calendar fields work in local time. The zone is given by
  \<open>tza\<close>, the local time minus UTC in milliseconds; it is one offset for all the dates
  of a call (a zone without a transition between them).
\<close>

datatype Date = Date int | Invalid_Date

definition msPerDay :: int where
  "msPerDay = 86400000"

definition MAX_TIME :: int where
  "MAX_TIME = 8640000000000000"

definition TimeClip :: "int \<Rightarrow> Date" where
  "TimeClip t = (if - MAX_TIME \<le> t \<and> t \<le> MAX_TIME then Date t else Invalid_Date)"

definition LocalTime :: "int \<Rightarrow> int \<Rightarrow> int" where
  "LocalTime tza t = t + tza"

definition UTC :: "int \<Rightarrow> int \<Rightarrow> int" where
  "UTC tza t = t - tza"

definition Day :: "int \<Rightarrow> int" where
  "Day t = t div msPerDay"

definition TimeWithinDay :: "int \<Rightarrow> int" where
  "TimeWithinDay t = t mod msPerDay"

definition MakeDate :: "int \<Rightarrow> int \<Rightarrow> int" where
  "MakeDate day time = day * msPerDay + time"

text \<open>The local calendar day of a time value, counted from 1970-01-01.\<close>

definition localDay :: "int \<Rightarrow> int \<Rightarrow> int" where
  "localDay tza t = Day (LocalTime tza t)"

definition isValid :: "Date \<Rightarrow> bool" where
  "isValid d = (d \<noteq> Invalid_Date)"

text \<open>
  The calendar of ECMAScript: the proleptic Gregorian calendar. The functions that follow
  take the number of a day; a \<^verbatim>\<open>Date\<close> method of the same name applies them to the
  local day of its time value.
\<close>

definition isLeapYear :: "int \<Rightarrow> bool" where
  "isLeapYear y = (y mod 400 = 0 \<or> (y mod 4 = 0 \<and> y mod 100 \<noteq> 0))"

definition DayFromYear :: "int \<Rightarrow> int" where
  "DayFromYear y =
     365 * (y - 1970) + (y - 1969) div 4 - (y - 1901) div 100 + (y - 1601) div 400"

definition month_lengths :: "int \<Rightarrow> nat list" where
  "month_lengths y =
     [31, if isLeapYear y then 29 else 28, 31, 30, 31, 30, 31, 31, 30, 31, 30, 31]"

text \<open>
  The year of a day is the largest \<open>y\<close> with \<open>DayFromYear y \<le> d\<close>; it is computed
  from the mean length of a year and corrected by one where the estimate is off.
\<close>

definition getFullYear :: "int \<Rightarrow> int" where
  "getFullYear d =
     (let y = 1970 + (400 * d) div 146097 in
      if DayFromYear (y + 1) \<le> d then y + 1
      else if d < DayFromYear y then y - 1
      else y)"

text \<open>
  \<open>month_day n ls\<close> walks the months of a year: the index of the month that holds
  the day \<open>n\<close> of the year (counted from 0), and the day within that month (from 0).
\<close>

fun month_day :: "nat \<Rightarrow> nat list \<Rightarrow> nat \<times> nat" where
  "month_day n [] = (0, n)"
| "month_day n (l # ls) =
     (if n < l then (0, n) else (let (m, r) = month_day (n - l) ls in (Suc m, r)))"

definition dayOfYear :: "int \<Rightarrow> nat" where
  "dayOfYear d = nat (d - DayFromYear (getFullYear d))"

definition getMonth :: "int \<Rightarrow> nat" where
  "getMonth d = fst (month_day (dayOfYear d) (month_lengths (getFullYear d)))"

definition getDate :: "int \<Rightarrow> nat" where
  "getDate d = snd (month_day (dayOfYear d) (month_lengths (getFullYear d))) + 1"

text \<open>\<^verbatim>\<open>getDay\<close>: 0 is Sunday; 1970-01-01 was a Thursday.\<close>

definition getDay :: "int \<Rightarrow> int" where
  "getDay d = (d + 4) mod 7"

text \<open>The day number of a calendar date (year, month from 1, day from 1).\<close>

definition MakeDay :: "int \<Rightarrow> nat \<Rightarrow> nat \<Rightarrow> int" where
  "MakeDay y m d = DayFromYear y + int (sum_list (take (m - 1) (month_lengths y))) + int d - 1"

text \<open>
  \<^verbatim>\<open>format(date, 'yyyy-MM-dd')\<close> throws a \<^verbatim>\<open>RangeError\<close> on the invalid date and
  prints the local day otherwise. The token \<^verbatim>\<open>yyyy\<close> prints the year of the era
  (\<open>1 - y\<close> for a year \<open>y \<le> 0\<close>) with at least four digits, and more when the year
  needs them; \<^verbatim>\<open>MM\<close> and \<^verbatim>\<open>dd\<close> print two digits.
\<close>

definition addLeadingZeros :: "nat \<Rightarrow> nat \<Rightarrow> string" where
  "addLeadingZeros n len = padStart len (CHR ''0'') (toString n)"

definition format_yyyy_MM_dd :: "int \<Rightarrow> string" where
  "format_yyyy_MM_dd d =
     (let signedYear = getFullYear d;
          year = (if signedYear > 0 then signedYear else 1 - signedYear)
      in addLeadingZeros (nat year) 4 @ ''-'' @ addLeadingZeros (getMonth d + 1) 2 @ ''-'' @
         addLeadingZeros (getDate d) 2)"

definition format :: "int \<Rightarrow> Date \<Rightarrow> thrown + string" where
  "format tza date =
     (case date of
        Invalid_Date \<Rightarrow> Inl (JsError ''Invalid time value'')
      | Date t \<Rightarrow> Inr (format_yyyy_MM_dd (localDay tza t)))"

text \<open>
  \<^verbatim>\<open>addDays\<close> returns the date itself for an amount of 0. Otherwise it calls
  \<^verbatim>\<open>setDate(getDate() + amount)\<close>, which moves the local day by the amount, keeps the
  local time of day, and clips the time value it arrives at. \<^verbatim>\<open>add\<close> is used with a
  duration that holds days or weeks only.
\<close>

definition addDays :: "int \<Rightarrow> Date \<Rightarrow> int \<Rightarrow> Date" where
  "addDays tza date amount =
     (case date of
        Invalid_Date \<Rightarrow> Invalid_Date
      | Date t \<Rightarrow>
          if amount = 0 then Date t
          else TimeClip (UTC tza (MakeDate (localDay tza t + amount)
                                           (TimeWithinDay (LocalTime tza t)))))"

record duration =
  days :: int
  weeks :: int

definition add :: "int \<Rightarrow> Date \<Rightarrow> duration \<Rightarrow> Date" where
  "add tza date dur =
     (if days dur \<noteq> 0 \<or> weeks dur \<noteq> 0 then addDays tza date (days dur + weeks dur * 7)
      else date)"

text \<open>
  \<^verbatim>\<open>nextDay(date, day)\<close>, which \<^verbatim>\<open>nextMonday\<close> ... \<^verbatim>\<open>nextSunday\<close> call with
  the days 1, 2, 3, 4, 5, 6 and 0.
\<close>

definition nextDay :: "int \<Rightarrow> Date \<Rightarrow> int \<Rightarrow> Date" where
  "nextDay tza date day =
     (case date of
        Invalid_Date \<Rightarrow> Invalid_Date
      | Date t \<Rightarrow>
          (let delta = day - getDay (localDay tza t) in
           addDays tza date (if delta \<le> 0 then delta + 7 else delta)))"

section \<open>The date parser (date-parser.ts)\<close>

subsection \<open>The regular expressions\<close>

text \<open>
  Each regular expression is anchored at both ends and its pieces draw on disjoint
  character classes, so a match, when there is one, is found by reading the pieces
  greedily from the left. \<open>lit\<close> reads a literal, \<open>spaces1\<close> is \<^verbatim>\<open>\s+\<close>,
  \<open>spaces0\<close> is \<^verbatim>\<open>\s*\<close>, \<open>unit_alt\<close> is \<^verbatim>\<open>(days?|weeks?)\<close>; each returns the
  rest of the string.
\<close>

definition lit :: "string \<Rightarrow> string \<Rightarrow> string option" where
  "lit p s = (if take (length p) s = p then Some (drop (length p) s) else None)"

definition spaces1 :: "string \<Rightarrow> string option" where
  "spaces1 s = (if takeWhile is_space s = [] then None else Some (dropWhile is_space s))"

definition spaces0 :: "string \<Rightarrow> string" where
  "spaces0 s = dropWhile is_space s"

definition unit_alt :: "string \<Rightarrow> (string \<times> string) option" where
  "unit_alt s =
     (if take 4 s = ''days'' then Some (''days'', drop 4 s)
      else if take 3 s = ''day'' then Some (''day'', drop 3 s)
      else if take 5 s = ''weeks'' then Some (''weeks'', drop 5 s)
      else if take 4 s = ''week'' then Some (''week'', drop 4 s)
      else None)"

text \<open>\<^verbatim>\<open>/^(\d{4})-(\d{2})-(\d{2})$/\<close>\<close>

definition isoDateMatch :: "string \<Rightarrow> (string \<times> string \<times> string) option" where
  "isoDateMatch s =
     (if length s = 10 \<and> list_all is_digit (take 4 s) \<and> s ! 4 = CHR ''-'' \<and>
         list_all is_digit (take 2 (drop 5 s)) \<and> s ! 7 = CHR ''-'' \<and>
         list_all is_digit (drop 8 s)
      then Some (take 4 s, take 2 (drop 5 s), drop 8 s)
      else None)"

text \<open>\<^verbatim>\<open>/^next\s+(\w+)$/\<close>\<close>

definition nextDayMatch :: "string \<Rightarrow> string option" where
  "nextDayMatch s =
     (case lit ''next'' s of
        None \<Rightarrow> None
      | Some r \<Rightarrow>
          (case spaces1 r of
             None \<Rightarrow> None
           | Some w \<Rightarrow> if w \<noteq> [] \<and> list_all is_word w then Some w else None))"

text \<open>\<^verbatim>\<open>/^(\w+)\s+(days?|weeks?)\s+from\s+now$/\<close>\<close>

definition fromNowMatch :: "string \<Rightarrow> (string \<times> string) option" where
  "fromNowMatch s =
     (if takeWhile is_word s = [] then None
      else case spaces1 (dropWhile is_word s) of
        None \<Rightarrow> None
      | Some r1 \<Rightarrow>
          (case unit_alt r1 of
             None \<Rightarrow> None
           | Some (unit, r2) \<Rightarrow>
               (case spaces1 r2 of
                  None \<Rightarrow> None
                | Some r3 \<Rightarrow>
                    (case lit ''from'' r3 of
                       None \<Rightarrow> None
                     | Some r4 \<Rightarrow>
                         (case spaces1 r4 of
                            None \<Rightarrow> None
                          | Some r5 \<Rightarrow>
                              if r5 = ''now'' then Some (takeWhile is_word s, unit)
                              else None)))))"

text \<open>\<^verbatim>\<open>/^today\s*\+\s*(\d+)\s*(days?|weeks?)$/\<close>\<close>

definition additionMatch :: "string \<Rightarrow> (string \<times> string) option" where
  "additionMatch s =
     (case lit ''today'' s of
        None \<Rightarrow> None
      | Some r0 \<Rightarrow>
          (case lit ''+'' (spaces0 r0) of
             None \<Rightarrow> None
           | Some r1 \<Rightarrow>
               (let r2 = spaces0 r1 in
                if takeWhile is_digit r2 = [] then None
                else case unit_alt (spaces0 (dropWhile is_digit r2)) of
                  None \<Rightarrow> None
                | Some (unit, r3) \<Rightarrow>
                    if r3 = [] then Some (takeWhile is_digit r2, unit) else None)))"

subsection \<open>The two lookup tables\<close>

text \<open>
  \<^verbatim>\<open>WORD_TO_NUMBER\<close> and \<^verbatim>\<open>DAY_FUNCTIONS\<close> are object literals, so a lookup
  also finds the properties they inherit from \<^verbatim>\<open>Object.prototype\<close>. The key is a
  lower-cased \<^verbatim>\<open>\w+\<close> match; the inherited names of that shape are
  \<^verbatim>\<open>constructor\<close> (the function \<^verbatim>\<open>Object\<close>) and \<^verbatim>\<open>__proto__\<close> (the object
  \<^verbatim>\<open>Object.prototype\<close>).
\<close>

datatype property = Own_Number nat | Own_NextDay int | Inherited_constructor | Inherited_proto

definition inherited :: "string \<Rightarrow> property option" where
  "inherited key =
     (if key = ''constructor'' then Some Inherited_constructor
      else if key = ''__proto__'' then Some Inherited_proto
      else None)"

definition WORD_TO_NUMBER :: "string \<Rightarrow> property option" where
  "WORD_TO_NUMBER key =
     (case map_of
        [(''one'', 1), (''two'', 2), (''three'', 3), (''four'', 4), (''five'', 5),
         (''six'', 6), (''seven'', 7), (''eight'', 8), (''nine'', 9), (''ten'', 10)] key of
        Some n \<Rightarrow> Some (Own_Number n)
      | None \<Rightarrow> inherited key)"

definition DAY_FUNCTIONS :: "string \<Rightarrow> property option" where
  "DAY_FUNCTIONS key =
     (case map_of
        [(''monday'', 1), (''tuesday'', 2), (''wednesday'', 3), (''thursday'', 4),
         (''friday'', 5), (''saturday'', 6), (''sunday'', 0)] key of
        Some day \<Rightarrow> Some (Own_NextDay day)
      | None \<Rightarrow> inherited key)"

text \<open>
  \<^verbatim>\<open>WORD_TO_NUMBER[quantityStr] || parseInt(quantityStr, 10)\<close>, read through
  \<^verbatim>\<open>isNaN\<close>: \<open>None\<close> when \<^verbatim>\<open>isNaN(quantity)\<close> holds. The own numbers are truthy;
  an inherited property is a truthy object that \<^verbatim>\<open>isNaN\<close> converts to \<^verbatim>\<open>NaN\<close>.
\<close>

definition quantity_of :: "string \<Rightarrow> nat option" where
  "quantity_of quantityStr =
     (case WORD_TO_NUMBER quantityStr of
        Some (Own_Number n) \<Rightarrow> Some n
      | Some _ \<Rightarrow> None
      | None \<Rightarrow> parseInt quantityStr)"

definition unit_duration :: "string \<Rightarrow> nat \<Rightarrow> duration" where
  "unit_duration unit quantity =
     (if take 4 unit = ''week'' then \<lparr> days = 0, weeks = int quantity \<rparr>
      else \<lparr> days = int quantity, weeks = 0 \<rparr>)"

subsection \<open>\<^verbatim>\<open>parseHumanDate\<close>\<close>

text \<open>
  \<^verbatim>\<open>parse(normalized, 'yyyy-MM-dd', new Date())\<close>, on the strings that have matched
  the first regular expression (no other string reaches it). The parser rejects the
  year 0, a month outside 1..12 and a day that the month of that year does not have;
  otherwise the date is the local midnight of that day.
\<close>

definition parse_yyyy_MM_dd :: "int \<Rightarrow> string \<Rightarrow> Date" where
  "parse_yyyy_MM_dd tza s =
     (case isoDateMatch s of
        None \<Rightarrow> Invalid_Date
      | Some (ys, ms, ds) \<Rightarrow>
          (let y = parseDigits ys; m = parseDigits ms; d = parseDigits ds in
           if 0 < y \<and> 1 \<le> m \<and> m \<le> 12 \<and> 1 \<le> d \<and> d \<le> month_lengths (int y) ! (m - 1)
           then TimeClip (UTC tza (MakeDate (MakeDay (int y) m d) 0))
           else Invalid_Date))"

definition unable :: "string \<Rightarrow> thrown" where
  "unable input = JsError (''Unable to parse date: '' @ input)"

text \<open>
  \<open>now\<close> is the time value of \<^verbatim>\<open>new Date()\<close>, the reading of the system clock, and
  \<open>tza\<close> the offset of the local zone. The result is \<open>Inr\<close> the returned string or
  \<open>Inl\<close> the thrown value.
\<close>

definition parseHumanDate :: "int \<Rightarrow> int \<Rightarrow> string \<Rightarrow> thrown + string" where
  "parseHumanDate tza now input =
     (let normalized = toLowerCase (trim input) in
      if normalized = [] then Inl (JsError ''Unable to parse date: '')
      else if isoDateMatch normalized \<noteq> None then
        (if \<not> isValid (parse_yyyy_MM_dd tza normalized) then Inl (unable input)
         else Inr normalized)
      else if normalized = ''today'' then format tza (Date now)
      else if normalized = ''tomorrow'' then
        format tza (add tza (Date now) \<lparr> days = 1, weeks = 0 \<rparr>)
      else if normalized = ''yesterday'' then
        format tza (add tza (Date now) \<lparr> days = - 1, weeks = 0 \<rparr>)
      else if normalized = ''next week'' then format tza (nextDay tza (Date now) 1)
      else
        (case (case nextDayMatch normalized of
                 None \<Rightarrow> None
               | Some dayName \<Rightarrow> DAY_FUNCTIONS dayName) of
           Some (Own_NextDay day) \<Rightarrow> format tza (nextDay tza (Date now) day)
         | Some Inherited_constructor \<Rightarrow> format tza (Date now)
         | Some _ \<Rightarrow> Inl (JsError ''dayFunction is not a function'')
         | None \<Rightarrow>
             (case fromNowMatch normalized of
                Some (quantityStr, unit) \<Rightarrow>
                  (case quantity_of quantityStr of
                     None \<Rightarrow> Inl (unable input)
                   | Some quantity \<Rightarrow>
                       format tza (add tza (Date now) (unit_duration unit quantity)))
              | None \<Rightarrow>
                  (case additionMatch normalized of
                     Some (quantityStr, unit) \<Rightarrow>
                       (case parseInt quantityStr of
                          None \<Rightarrow> Inl (unable input)
                        | Some quantity \<Rightarrow>
                            format tza (add tza (Date now) (unit_duration unit quantity)))
                   | None \<Rightarrow> Inl (unable input)))))"

text \<open>
  The system time that date-parser.test.ts sets for its tests,
  \<^verbatim>\<open>2025-11-18T12:00:00Z\<close>: noon of the day 2025-11-18.
\<close>

definition systemTime :: int where
  "systemTime = MakeDate (MakeDay 2025 11 18) (12 * 3600000)"

section \<open>The date parser tool (tools/date-parser.ts)\<close>

text \<open>Reading a property of an object: \<^verbatim>\<open>undefined\<close> when the object has none of that name.\<close>

definition getProperty :: "params \<Rightarrow> string \<Rightarrow> jsval" where
  "getProperty obj key = (case map_of obj key of Some v \<Rightarrow> v | None \<Rightarrow> JUndefined)"

definition squote :: string where
  "squote = [CHR 0x27]"

text \<open>
  The handler casts \<^verbatim>\<open>params.dateString\<close> to a string without a check, so
  \<^verbatim>\<open>parseHumanDate\<close> can receive any value. On a value that is not a string the
  first statement, \<^verbatim>\<open>input.trim()\<close>, throws a \<^verbatim>\<open>TypeError\<close>; the messages are
  those of V8.
\<close>

definition parseHumanDate_call :: "int \<Rightarrow> int \<Rightarrow> jsval \<Rightarrow> thrown + string" where
  "parseHumanDate_call tza now v =
     (case v of
        JStr input \<Rightarrow> parseHumanDate tza now input
      | JUndefined \<Rightarrow>
          Inl (JsError (''Cannot read properties of undefined (reading '' @ squote @ ''trim'' @ squote @ '')''))
      | JNull \<Rightarrow>
          Inl (JsError (''Cannot read properties of null (reading '' @ squote @ ''trim'' @ squote @ '')''))
      | _ \<Rightarrow> Inl (JsError ''input.trim is not a function''))"

definition dateParserTool_execute :: "int \<Rightarrow> int \<Rightarrow> params \<Rightarrow> jsval promise" where
  "dateParserTool_execute tza now ps =
     (let dateString = getProperty ps ''dateString'' in
      case parseHumanDate_call tza now dateString of
        Inr parsedDate \<Rightarrow>
          Fulfilled (JObj [(''success'', JBool True), (''date'', JStr parsedDate),
                          (''originalInput'', dateString)])
      | Inl e \<Rightarrow>
          Fulfilled (JObj [(''success'', JBool False),
                          (''error'', JStr (case e of JsError message \<Rightarrow> message
                                                   | NonError _ \<Rightarrow> ''Unknown error'')),
                          (''originalInput'', dateString)]))"

definition dateParserTool :: "int \<Rightarrow> int \<Rightarrow> ToolDefinition" where
  "dateParserTool tza now =
     \<lparr> tool_name = ''parse_date'',
       description =
         ''Converts human-readable date strings into YYYY-MM-DD format. '' @
         ''Supports formats like '' @ dquote @ ''today'' @ dquote @ '', '' @
         dquote @ ''tomorrow'' @ dquote @ '', '' @
         dquote @ ''two days from now'' @ dquote @ '', '' @
         dquote @ ''today + 2 days'' @ dquote @ '', '' @
         dquote @ ''next week'' @ dquote @ '', '' @
         dquote @ ''next Friday'' @ dquote @ '', etc.'',
       tool_parameters =
         JObj [(''type'', JStr ''object''),
               (''properties'',
                JObj [(''dateString'',
                       JObj [(''type'', JStr ''string''),
                             (''description'',
                              JStr (''Human-readable date string to parse (e.g., '' @
                                    dquote @ ''today'' @ dquote @ '', '' @
                                    dquote @ ''next week'' @ dquote @ '', '' @
                                    dquote @ ''2 days from now'' @ dquote @ '')''))])]),
               (''required'', JArr [JStr ''dateString''])],
       execute = dateParserTool_execute tza now \<rparr>"

text \<open>The sample tool of executor.test.ts.\<close>

definition mockTool :: ToolDefinition where
  "mockTool =
     \<lparr> tool_name = ''test_tool'',
       description = ''A test tool'',
       tool_parameters =
         JObj [(''type'', JStr ''object''),
               (''properties'', JObj [(''message'', JObj [(''type'', JStr ''string'')])]),
               (''required'', JArr [JStr ''message''])],
       execute = (\<lambda>ps. Fulfilled (JObj [(''echo'', getProperty ps ''message'')])) \<rparr>"

section \<open>Notions of the specification\<close>

text \<open>
  The definitions of this section follow the words of the specification, not the code;
  the theorems compare the code with them.
\<close>

text \<open>
  A field of a Tool Result is set when reading it gives a value other than
  \<^verbatim>\<open>undefined\<close>; this is what executor.test.ts checks with \<^verbatim>\<open>toBeUndefined\<close>. A
  property that the object literal does not write reads as \<^verbatim>\<open>undefined\<close>, and so does
  one that it writes with the value \<^verbatim>\<open>undefined\<close>. The \<open>error\<close> field, when written,
  holds a string.
\<close>

definition result_is_set :: "ToolResult \<Rightarrow> bool" where
  "result_is_set r = (case result r of None \<Rightarrow> False | Some v \<Rightarrow> v \<noteq> JUndefined)"

definition error_is_set :: "ToolResult \<Rightarrow> bool" where
  "error_is_set r = (error r \<noteq> None)"

text \<open>\<open>includes_str s t\<close>: the string \<open>s\<close> contains \<open>t\<close> (\<^verbatim>\<open>String.prototype.includes\<close>).\<close>

definition includes_str :: "string \<Rightarrow> string \<Rightarrow> bool" where
  "includes_str s t = list_ex (\<lambda>i. take (length t) (drop i s) = t) [0..<Suc (length s)]"

text \<open>
  A valid calendar date: a year of the common era, a month from 1 to 12 and a day that
  the month has in that year; and its writing as \<^verbatim>\<open>YYYY-MM-DD\<close>, for a year of at
  most four digits.
\<close>

definition days_in_month :: "nat \<Rightarrow> nat \<Rightarrow> nat" where
  "days_in_month y m =
     (if m = 2 then (if y mod 4 = 0 \<and> (y mod 100 \<noteq> 0 \<or> y mod 400 = 0) then 29 else 28)
      else if m = 4 \<or> m = 6 \<or> m = 9 \<or> m = 11 then 30
      else 31)"

definition valid_calendar_date :: "nat \<Rightarrow> nat \<Rightarrow> nat \<Rightarrow> bool" where
  "valid_calendar_date y m d =
     (1 \<le> y \<and> y \<le> 9999 \<and> 1 \<le> m \<and> m \<le> 12 \<and> 1 \<le> d \<and> d \<le> days_in_month y m)"

definition iso_string :: "nat \<Rightarrow> nat \<Rightarrow> nat \<Rightarrow> string" where
  "iso_string y m d =
     padStart 4 (CHR ''0'') (toString y) @ ''-'' @ padStart 2 (CHR ''0'') (toString m) @ ''-'' @
     padStart 2 (CHR ''0'') (toString d)"

text \<open>The weekday names of the claim, with the number \<^verbatim>\<open>getDay\<close> gives each.\<close>

definition weekdays :: "(string \<times> int) list" where
  "weekdays =
     [(''Monday'', 1), (''Tuesday'', 2), (''Wednesday'', 3), (''Thursday'', 4),
      (''Friday'', 5), (''Saturday'', 6), (''Sunday'', 0)]"

text \<open>The quantity words of pattern 4, with their values.\<close>

definition number_words :: "(string \<times> nat) list" where
  "number_words =
     [(''one'', 1), (''two'', 2), (''three'', 3), (''four'', 4), (''five'', 5),
      (''six'', 6), (''seven'', 7), (''eight'', 8), (''nine'', 9), (''ten'', 10)]"

text \<open>
  The recognized patterns of section 4.1, on the trimmed, lower-cased input: the
  \<^verbatim>\<open>YYYY-MM-DD\<close> shape, the four keywords, \<^verbatim>\<open>next <weekday>\<close>,
  \<^verbatim>\<open><quantity> <day(s)|week(s)> from now\<close> with a quantity that is a digit string
  or one of the ten words, and \<^verbatim>\<open>today + <digits> <day(s)|week(s)>\<close>.
\<close>

definition recognized :: "string \<Rightarrow> bool" where
  "recognized n =
     (isoDateMatch n \<noteq> None \<or>
      n \<in> set [''today'', ''tomorrow'', ''yesterday'', ''next week''] \<or>
      (case nextDayMatch n of
         None \<Rightarrow> False
       | Some w \<Rightarrow> w \<in> set (map (toLowerCase \<circ> fst) weekdays)) \<or>
      (case fromNowMatch n of
         None \<Rightarrow> False
       | Some (q, u) \<Rightarrow> list_all is_digit q \<or> q \<in> set (map fst number_words)) \<or>
      additionMatch n \<noteq> None)"


section \<open>The executor and the registry\<close>

lemma Math_round_nonneg: "0 \<le> x \<Longrightarrow> 0 \<le> Math_round x"
  by (simp add: Math_round_def)

lemma executeTool_Fulfilled: "\<exists>r. executeTool tools clk invocation = Fulfilled r"
  by (simp add: executeTool_def split: sum.split)

lemma Promise_all_map_Fulfilled:
  "(\<And>x. x \<in> set xs \<Longrightarrow> \<exists>r. f x = Fulfilled r) \<Longrightarrow>
   \<exists>rs. Promise_all (map f xs) = Fulfilled rs \<and> length rs = length xs \<and>
        (\<forall>i<length xs. f (xs ! i) = Fulfilled (rs ! i))"
proof (induction xs)
  case Nil
  then show ?case by simp
next
  case (Cons x xs)
  from Cons.prems obtain r where r: "f x = Fulfilled r" by auto
  from Cons.IH Cons.prems obtain rs where rs: "Promise_all (map f xs) = Fulfilled rs"
    "length rs = length xs" "\<forall>i<length xs. f (xs ! i) = Fulfilled (rs ! i)" by auto
  have "\<forall>i<length (x # xs). f ((x # xs) ! i) = Fulfilled ((r # rs) ! i)"
    using r rs(3) by (auto simp: nth_Cons split: nat.split)
  then show ?case using r rs by simp
qed

lemma executeTools_results:
  "\<exists>rs. executeTools tools clks invocations = Fulfilled rs \<and>
        length rs = length invocations \<and>
        (\<forall>i<length invocations.
           executeTool tools (clks i) (invocations ! i) = Fulfilled (rs ! i))"
proof -
  let ?f = "\<lambda>(i, invocation). executeTool tools (clks i) invocation"
  have "\<And>x. x \<in> set (enumerate 0 invocations) \<Longrightarrow> \<exists>r. ?f x = Fulfilled r"
    using executeTool_Fulfilled by (auto simp: split_def)
  from Promise_all_map_Fulfilled [of "enumerate 0 invocations" ?f, OF this]
  obtain rs where rs: "Promise_all (map ?f (enumerate 0 invocations)) = Fulfilled rs"
    "length rs = length (enumerate 0 invocations)"
    "\<forall>i<length (enumerate 0 invocations). ?f (enumerate 0 invocations ! i) = Fulfilled (rs ! i)"
    by blast
  show ?thesis
    using rs by (auto simp: executeTools_def nth_enumerate_eq)
qed

text \<open>
  Claim C1. For every registry, clock and invocation, \<open>executeTool\<close> is fulfilled with
  a Tool Result and is never rejected. When the handler that was looked up rejects with
  an \<^verbatim>\<open>Error\<close>, the result's \<open>error\<close> field is that error's message; when it
  rejects with a value that is not an \<^verbatim>\<open>Error\<close>, the field is the string
  \<^verbatim>\<open>Unknown error\<close>. In both cases \<open>result\<close> is not set.
\<close>

theorem executeTool_never_rejects:
  "\<exists>r. executeTool tools clk invocation = Fulfilled r \<and>
     (\<forall>tool message. get tools (inv_name invocation) = Some tool \<longrightarrow>
         execute tool (inv_parameters invocation) = Rejected (JsError message) \<longrightarrow>
         error r = Some message \<and> result r = None) \<and>
     (\<forall>tool v. get tools (inv_name invocation) = Some tool \<longrightarrow>
         execute tool (inv_parameters invocation) = Rejected (NonError v) \<longrightarrow>
         error r = Some ''Unknown error'' \<and> result r = None)"
  by (auto simp: executeTool_def executeTool_try_def
           split: option.split promise.split sum.split thrown.split)

theorem executeTool_never_rejects_witness:
  "(\<exists>r. executeTool
          [(''failing_tool'', \<lparr> tool_name = ''failing_tool'', description = ''throws an Error'',
              tool_parameters = JObj [],
              execute = (\<lambda>ps. Rejected (JsError ''Something went wrong'')) \<rparr>)]
          \<lparr> startTime = 10, endTime = 12 \<rparr>
          \<lparr> inv_id = ''inv-1'', inv_name = ''failing_tool'', inv_parameters = [] \<rparr> = Fulfilled r \<and>
        error r = Some ''Something went wrong'' \<and> result r = None) \<and>
   (\<exists>r. executeTool
          [(''string_thrower'', \<lparr> tool_name = ''string_thrower'', description = ''throws a string'',
              tool_parameters = JObj [],
              execute = (\<lambda>ps. Rejected (NonError (JStr ''a plain string''))) \<rparr>)]
          \<lparr> startTime = 10, endTime = 12 \<rparr>
          \<lparr> inv_id = ''inv-2'', inv_name = ''string_thrower'', inv_parameters = [] \<rparr> = Fulfilled r \<and>
        error r = Some ''Unknown error'' \<and> result r = None)"
  using
    executeTool_never_rejects [of
      "[(''failing_tool'', \<lparr> tool_name = ''failing_tool'', description = ''throws an Error'',
              tool_parameters = JObj [],
              execute = (\<lambda>ps. Rejected (JsError ''Something went wrong'')) \<rparr>)]"
      "\<lparr> startTime = 10, endTime = 12 \<rparr>"
      "\<lparr> inv_id = ''inv-1'', inv_name = ''failing_tool'', inv_parameters = [] \<rparr>"]
    executeTool_never_rejects [of
      "[(''string_thrower'', \<lparr> tool_name = ''string_thrower'', description = ''throws a string'',
              tool_parameters = JObj [],
              execute = (\<lambda>ps. Rejected (NonError (JStr ''a plain string''))) \<rparr>)]"
      "\<lparr> startTime = 10, endTime = 12 \<rparr>"
      "\<lparr> inv_id = ''inv-2'', inv_name = ''string_thrower'', inv_parameters = [] \<rparr>"]
  by (simp add: get_def)

text \<open>
  Claim C2. For every list of invocations, \<open>executeTools\<close> is fulfilled with a list of
  the same length whose entry at index \<open>i\<close> is the result of \<open>executeTool\<close> on the
  invocation at index \<open>i\<close>; and replacing the invocation at another index \<open>j\<close> by
  any invocation (one that fails, for instance) leaves the entry at index \<open>i\<close> as it was.
\<close>

theorem executeTools_positional:
  "\<exists>rs. executeTools tools clks invocations = Fulfilled rs \<and>
        length rs = length invocations \<and>
        (\<forall>i<length invocations.
           executeTool tools (clks i) (invocations ! i) = Fulfilled (rs ! i)) \<and>
        (\<forall>i j x. i < length invocations \<and> j < length invocations \<and> i \<noteq> j \<longrightarrow>
           (\<exists>rs'. executeTools tools clks (invocations[j := x]) = Fulfilled rs' \<and>
                  rs' ! i = rs ! i))"
proof -
  from executeTools_results [of tools clks invocations]
  obtain rs where rs: "executeTools tools clks invocations = Fulfilled rs"
    "length rs = length invocations"
    "\<forall>i<length invocations. executeTool tools (clks i) (invocations ! i) = Fulfilled (rs ! i)"
    by blast
  have "\<exists>rs'. executeTools tools clks (invocations[j := x]) = Fulfilled rs' \<and> rs' ! i = rs ! i"
    if "i < length invocations" "j < length invocations" "i \<noteq> j" for i j x
  proof -
    from executeTools_results [of tools clks "invocations[j := x]"]
    obtain rs' where rs': "executeTools tools clks (invocations[j := x]) = Fulfilled rs'"
      "\<forall>i<length (invocations[j := x]).
         executeTool tools (clks i) (invocations[j := x] ! i) = Fulfilled (rs' ! i)"
      by blast
    from rs'(2) that have "executeTool tools (clks i) (invocations ! i) = Fulfilled (rs' ! i)"
      by (metis length_list_update nth_list_update_neq)
    with rs(3) that(1) have "rs' ! i = rs ! i" by simp
    with rs'(1) show ?thesis by blast
  qed
  with rs show ?thesis by blast
qed

theorem executeTools_positional_witness:
  "\<exists>rs. executeTools [(''test_tool'', mockTool)] (\<lambda>i. \<lparr> startTime = 10, endTime = 12 \<rparr>)
          [\<lparr> inv_id = ''a'', inv_name = ''test_tool'', inv_parameters = [(''message'', JStr ''Hello'')] \<rparr>,
           \<lparr> inv_id = ''b'', inv_name = ''test_tool'', inv_parameters = [(''message'', JStr ''Test'')] \<rparr>]
          = Fulfilled rs \<and>
        length rs = 2 \<and>
        executeTool [(''test_tool'', mockTool)] \<lparr> startTime = 10, endTime = 12 \<rparr>
          \<lparr> inv_id = ''a'', inv_name = ''test_tool'', inv_parameters = [(''message'', JStr ''Hello'')] \<rparr>
          = Fulfilled (rs ! 0) \<and>
        (\<exists>rs'. executeTools [(''test_tool'', mockTool)] (\<lambda>i. \<lparr> startTime = 10, endTime = 12 \<rparr>)
          [\<lparr> inv_id = ''a'', inv_name = ''test_tool'', inv_parameters = [(''message'', JStr ''Hello'')] \<rparr>,
           \<lparr> inv_id = ''c'', inv_name = ''nonexistent_tool'', inv_parameters = [] \<rparr>]
          = Fulfilled rs' \<and> rs' ! 0 = rs ! 0)"
proof -
  let ?tools = "[(''test_tool'', mockTool)]"
  let ?clks = "\<lambda>i::nat. \<lparr> startTime = 10, endTime = 12 \<rparr>"
  let ?a = "\<lparr> inv_id = ''a'', inv_name = ''test_tool'', inv_parameters = [(''message'', JStr ''Hello'')] \<rparr>"
  let ?b = "\<lparr> inv_id = ''b'', inv_name = ''test_tool'', inv_parameters = [(''message'', JStr ''Test'')] \<rparr>"
  let ?c = "\<lparr> inv_id = ''c'', inv_name = ''nonexistent_tool'', inv_parameters = [] \<rparr>"
  from executeTools_positional [of ?tools ?clks "[?a, ?b]"]
  obtain rs where rs: "executeTools ?tools ?clks [?a, ?b] = Fulfilled rs"
    "length rs = length [?a, ?b]"
    "\<forall>i<length [?a, ?b]. executeTool ?tools (?clks i) ([?a, ?b] ! i) = Fulfilled (rs ! i)"
    "\<forall>i j x. i < length [?a, ?b] \<and> j < length [?a, ?b] \<and> i \<noteq> j \<longrightarrow>
       (\<exists>rs'. executeTools ?tools ?clks ([?a, ?b][j := x]) = Fulfilled rs' \<and> rs' ! i = rs ! i)"
    by blast
  have "(0::nat) < length [?a, ?b]" by simp
  with rs(3) have 0: "executeTool ?tools (?clks 0) ([?a, ?b] ! 0) = Fulfilled (rs ! 0)"
    by blast
  have "(0::nat) < length [?a, ?b] \<and> (1::nat) < length [?a, ?b] \<and> (0::nat) \<noteq> 1" by simp
  with rs(4) have 1: "\<exists>rs'. executeTools ?tools ?clks ([?a, ?b][1 := ?c]) = Fulfilled rs' \<and> rs' ! 0 = rs ! 0"
    by blast
  show ?thesis
    using rs(1,2) 0 1 by (intro exI [of _ rs]) simp
qed

text \<open>
  Claim C3, amended. With a monotonic clock (the second reading of
  \<^verbatim>\<open>performance.now()\<close> is not before the first), a Tool Result of \<open>executeTool\<close>
  never has both \<open>result\<close> and \<open>error\<close> set. It has neither set exactly when the
  handler that was looked up is fulfilled with \<^verbatim>\<open>undefined\<close>: the object literal then
  writes \<open>result\<close> with that value, and \<open>error\<close> is not written. In every other case
  exactly one of the two is set: \<open>result\<close> when the handler is fulfilled with another
  value, \<open>error\<close> when the name is not registered or the handler rejects.
  \<open>durationMs\<close> is set to a non-negative integer, and the result carries the
  invocation's id and name.
\<close>

theorem executeTool_result_invariant:
  assumes "startTime clk \<le> endTime clk"
  shows
  "\<exists>r. executeTool tools clk invocation = Fulfilled r \<and>
       \<not> (result_is_set r \<and> error_is_set r) \<and>
       ((\<not> result_is_set r \<and> \<not> error_is_set r) =
          (\<exists>tool. get tools (inv_name invocation) = Some tool \<and>
                  execute tool (inv_parameters invocation) = Fulfilled JUndefined)) \<and>
       (result_is_set r =
          (\<exists>tool v. get tools (inv_name invocation) = Some tool \<and>
                    execute tool (inv_parameters invocation) = Fulfilled v \<and> v \<noteq> JUndefined)) \<and>
       (error_is_set r =
          (get tools (inv_name invocation) = None \<or>
           (\<exists>tool e. get tools (inv_name invocation) = Some tool \<and>
                     execute tool (inv_parameters invocation) = Rejected e))) \<and>
       (\<exists>d. durationMs r = Some d \<and> 0 \<le> d) \<and>
       res_id r = inv_id invocation \<and> res_name r = inv_name invocation"
proof -
  from assms have d: "0 \<le> Math_round (endTime clk - startTime clk)"
    by (simp add: Math_round_nonneg)
  show ?thesis
  proof (cases "get tools (inv_name invocation)")
    case None
    with d show ?thesis
      by (simp add: executeTool_def executeTool_try_def result_is_set_def error_is_set_def)
  next
    case (Some tool)
    with d show ?thesis
      by (cases "execute tool (inv_parameters invocation)")
         (simp_all add: executeTool_def executeTool_try_def result_is_set_def error_is_set_def)
  qed
qed

theorem executeTool_result_invariant_witness:
  "startTime \<lparr> startTime = 10, endTime = 12 \<rparr> \<le> endTime \<lparr> startTime = 10, endTime = 12 \<rparr> \<and>
   (\<exists>r. executeTool [(''test_tool'', mockTool)] \<lparr> startTime = 10, endTime = 12 \<rparr>
          \<lparr> inv_id = ''inv-123'', inv_name = ''test_tool'',
            inv_parameters = [(''message'', JStr ''Hello'')] \<rparr> = Fulfilled r \<and>
        result_is_set r \<and> \<not> error_is_set r \<and>
        (\<exists>d. durationMs r = Some d \<and> 0 \<le> d) \<and>
        res_id r = ''inv-123'' \<and> res_name r = ''test_tool'')"
proof -
  let ?inv = "\<lparr> inv_id = ''inv-123'', inv_name = ''test_tool'',
                inv_parameters = [(''message'', JStr ''Hello'')] \<rparr>"
  let ?tools = "[(''test_tool'', mockTool)]"
  have h: "startTime \<lparr> startTime = 10, endTime = 12 \<rparr> \<le> endTime \<lparr> startTime = 10, endTime = 12 \<rparr>"
    by simp
  have g: "\<exists>tool v. get ?tools (inv_name ?inv) = Some tool \<and>
                   execute tool (inv_parameters ?inv) = Fulfilled v \<and> v \<noteq> JUndefined"
    by (simp add: get_def mockTool_def)
  from executeTool_result_invariant [OF h, of ?tools ?inv]
  obtain r where r: "executeTool ?tools \<lparr> startTime = 10, endTime = 12 \<rparr> ?inv = Fulfilled r"
    "\<not> (result_is_set r \<and> error_is_set r)"
    "result_is_set r =
       (\<exists>tool v. get ?tools (inv_name ?inv) = Some tool \<and>
                 execute tool (inv_parameters ?inv) = Fulfilled v \<and> v \<noteq> JUndefined)"
    "\<exists>d. durationMs r = Some d \<and> 0 \<le> d"
    "res_id r = inv_id ?inv" "res_name r = inv_name ?inv"
    by blast
  from r(3) g have s: "result_is_set r" by blast
  with r(2) have e: "\<not> error_is_set r" by blast
  from r(1,4,5,6) h s e show ?thesis by (intro conjI exI [of _ r]) simp_all
qed

theorem executeTool_result_invariant_counterexample:
  "executeTool
     [(''void_tool'', \<lparr> tool_name = ''void_tool'', description = ''returns nothing'',
         tool_parameters = JObj [], execute = (\<lambda>ps. Fulfilled JUndefined) \<rparr>)]
     \<lparr> startTime = 10, endTime = 12 \<rparr>
     \<lparr> inv_id = ''inv-1'', inv_name = ''void_tool'', inv_parameters = [] \<rparr> =
   Fulfilled \<lparr> res_id = ''inv-1'', res_name = ''void_tool'',
     result = Some JUndefined, error = None, durationMs = Some 2 \<rparr> \<and>
   \<not> result_is_set \<lparr> res_id = ''inv-1'', res_name = ''void_tool'',
     result = Some JUndefined, error = None, durationMs = Some 2 \<rparr> \<and>
   \<not> error_is_set \<lparr> res_id = ''inv-1'', res_name = ''void_tool'',
     result = Some JUndefined, error = None, durationMs = Some 2 \<rparr>"
  by (simp add: executeTool_def executeTool_try_def get_def Math_round_def
        result_is_set_def error_is_set_def)

text \<open>
  Claim C4. When the registry already holds a definition under the name of the tool
  being registered, \<open>register\<close> throws, the registry after the call is the registry
  before it, and \<open>get\<close> still returns the definition that was registered first.
\<close>

theorem register_duplicate_fails:
  "get tools (tool_name tool) = Some original \<Longrightarrow>
   (\<exists>e. fst (register tool tools) = Inl e) \<and>
   snd (register tool tools) = tools \<and>
   get (snd (register tool tools)) (tool_name tool) = Some original"
  by (simp add: register_def has_def get_def)

theorem register_duplicate_fails_witness:
  "get (snd (register mockTool [])) (tool_name (mockTool \<lparr> description := ''Another tool'' \<rparr>))
     = Some mockTool \<and>
   (\<exists>e. fst (register (mockTool \<lparr> description := ''Another tool'' \<rparr>) (snd (register mockTool [])))
          = Inl e) \<and>
   snd (register (mockTool \<lparr> description := ''Another tool'' \<rparr>) (snd (register mockTool [])))
     = snd (register mockTool []) \<and>
   get (snd (register (mockTool \<lparr> description := ''Another tool'' \<rparr>) (snd (register mockTool []))))
       (tool_name (mockTool \<lparr> description := ''Another tool'' \<rparr>)) = Some mockTool"
proof -
  have h: "get (snd (register mockTool []))
             (tool_name (mockTool \<lparr> description := ''Another tool'' \<rparr>)) = Some mockTool"
    by (simp add: register_def has_def get_def mockTool_def)
  from register_duplicate_fails [OF h] h show ?thesis by simp
qed

text \<open>
  Claim C5. For an invocation whose name is not registered, with a monotonic clock,
  \<open>executeTool\<close> is fulfilled with a result whose \<open>error\<close> is the string
  \<^verbatim>\<open>Tool "<name>" not found\<close> with the invoked name in it, whose \<open>result\<close> is
  not set, and whose \<open>durationMs\<close> is at least 0.
\<close>

theorem executeTool_not_found:
  "\<not> has tools (inv_name invocation) \<Longrightarrow> startTime clk \<le> endTime clk \<Longrightarrow>
   \<exists>r. executeTool tools clk invocation = Fulfilled r \<and>
       error r = Some (''Tool '' @ dquote @ inv_name invocation @ dquote @ '' not found'') \<and>
       result r = None \<and>
       (\<exists>d. durationMs r = Some d \<and> 0 \<le> d)"
  by (auto simp: executeTool_def executeTool_try_def has_def get_def Math_round_nonneg)

theorem executeTool_not_found_witness:
  "\<not> has [(''test_tool'', mockTool)] ''nonexistent_tool'' \<and>
   startTime \<lparr> startTime = 10, endTime = 12 \<rparr> \<le> endTime \<lparr> startTime = 10, endTime = 12 \<rparr> \<and>
   (\<exists>r. executeTool [(''test_tool'', mockTool)] \<lparr> startTime = 10, endTime = 12 \<rparr>
          \<lparr> inv_id = ''inv-456'', inv_name = ''nonexistent_tool'', inv_parameters = [] \<rparr>
          = Fulfilled r \<and>
        error r = Some (''Tool '' @ dquote @ ''nonexistent_tool'' @ dquote @ '' not found'') \<and>
        result r = None \<and>
        (\<exists>d. durationMs r = Some d \<and> 0 \<le> d))"
proof -
  have h1: "\<not> has [(''test_tool'', mockTool)]
              (inv_name \<lparr> inv_id = ''inv-456'', inv_name = ''nonexistent_tool'', inv_parameters = [] \<rparr>)"
    by (simp add: has_def)
  have h2: "startTime \<lparr> startTime = 10, endTime = 12 \<rparr> \<le> endTime \<lparr> startTime = 10, endTime = 12 \<rparr>"
    by simp
  from executeTool_not_found [OF h1 h2] h1 h2 show ?thesis by simp
qed

section \<open>The calendar\<close>

lemma div_lower: "0 < k \<Longrightarrow> k * (x div k) \<le> (x::int)"
  using mult_div_mod_eq [of k x] pos_mod_sign [of k x] by linarith

lemma div_upper: "0 < k \<Longrightarrow> (x::int) < k * (x div k) + k"
  using mult_div_mod_eq [of k x] pos_mod_bound [of k x] by linarith

lemma div_step:
  fixes a k :: int
  assumes "0 < k"
  shows "(a + 1) div k = a div k + (if (a + 1) mod k = 0 then 1 else 0)"
proof -
  define r where "r = a mod k"
  have r: "0 \<le> r" "r < k" using assms by (simp_all add: r_def)
  have a: "a + 1 = (r + 1) + k * (a div k)" by (simp add: r_def)
  have d: "(a + 1) div k = a div k + (r + 1) div k"
    using assms by (simp only: a div_mult_self2)
  have m: "(a + 1) mod k = (r + 1) mod k"
    by (simp only: a mod_mult_self2)
  show ?thesis
  proof (cases "r + 1 = k")
    case True
    then show ?thesis using d m assms by simp
  next
    case False
    then have "r + 1 < k" using r by simp
    then show ?thesis using d m r by simp
  qed
qed

lemma mod_sub_mult: "(a - k * c) mod k = a mod (k::int)"
  using mod_mult_self2 [of a k "- c"] by simp

lemma mod_shift: "(y - 1968) mod 4 = y mod (4::int)" "(y - 1900) mod 100 = y mod (100::int)"
  "(y - 1600) mod 400 = y mod (400::int)"
  using mod_sub_mult [of y 4 492] mod_sub_mult [of y 100 19] mod_sub_mult [of y 400 4]
  by simp_all

lemma leap_mods: "y mod 400 = 0 \<Longrightarrow> y mod 100 = 0" "y mod 100 = 0 \<Longrightarrow> y mod (4::int) = 0"
  using dvd_trans [of 100 400 y] dvd_trans [of 4 100 y]
  by (simp_all add: mod_eq_0_iff_dvd)

lemma DayFromYear_Suc:
  "DayFromYear (y + 1) = DayFromYear y + (if isLeapYear y then 366 else 365)"
proof -
  have 4: "(y - 1968) div 4 = (y - 1969) div 4 + (if y mod 4 = 0 then 1 else 0)"
    using div_step [of 4 "y - 1969"] mod_shift(1) [of y] by simp
  have 100: "(y - 1900) div 100 = (y - 1901) div 100 + (if y mod 100 = 0 then 1 else 0)"
    using div_step [of 100 "y - 1901"] mod_shift(2) [of y] by simp
  have 400: "(y - 1600) div 400 = (y - 1601) div 400 + (if y mod 400 = 0 then 1 else 0)"
    using div_step [of 400 "y - 1601"] mod_shift(3) [of y] by simp
  have "DayFromYear (y + 1) =
     365 * (y - 1969) + (y - 1968) div 4 - (y - 1900) div 100 + (y - 1600) div 400"
    by (simp add: DayFromYear_def)
  also have "\<dots> = DayFromYear y + (if isLeapYear y then 366 else 365)"
    unfolding 4 100 400 DayFromYear_def isLeapYear_def
    using leap_mods [of y] by (cases "y mod 4 = 0"; cases "y mod 100 = 0"; cases "y mod 400 = 0") simp_all
  finally show ?thesis .
qed


lemma year_estimate_low:
  fixes q d :: int
  assumes "146097 * q \<le> 400 * d"
  shows "DayFromYear (1970 + q - 1) \<le> d"
proof -
  define a where "a = q div 4"
  define b where "b = (68 + q) div 100"
  define c where "c = (368 + q) div 400"
  have "4 * a \<le> q" "68 + q < 100 * b + 100" "400 * c \<le> 368 + q"
    unfolding a_def b_def c_def by (rule div_lower div_upper; simp)+
  moreover have "DayFromYear (1970 + q - 1) = 365 * q - 365 + a - b + c"
    by (simp add: DayFromYear_def a_def b_def c_def)
  ultimately show ?thesis using assms by linarith
qed

lemma year_estimate_high:
  fixes q d :: int
  assumes "400 * d < 146097 * q + 146097"
  shows "d < DayFromYear (1970 + q + 2)"
proof -
  define a where "a = (3 + q) div 4"
  define b where "b = (71 + q) div 100"
  define c where "c = (371 + q) div 400"
  have "3 + q < 4 * a + 4" "100 * b \<le> 71 + q" "371 + q < 400 * c + 400"
    unfolding a_def b_def c_def by (rule div_lower div_upper; simp)+
  moreover have "DayFromYear (1970 + q + 2) = 365 * q + 730 + a - b + c"
    by (simp add: DayFromYear_def a_def b_def c_def)
  ultimately show ?thesis using assms by linarith
qed

lemma getFullYear_bounds:
  "DayFromYear (getFullYear d) \<le> d \<and> d < DayFromYear (getFullYear d + 1)"
proof -
  define q where "q = (400 * d) div 146097"
  have q: "146097 * q \<le> 400 * d" "400 * d < 146097 * q + 146097"
    unfolding q_def by (rule div_lower div_upper; simp)+
  have lo: "DayFromYear (1970 + q - 1) \<le> d" using q(1) by (rule year_estimate_low)
  have hi: "d < DayFromYear (1970 + q + 2)" using q(2) by (rule year_estimate_high)
  have y: "getFullYear d =
     (if DayFromYear (1970 + q + 1) \<le> d then 1970 + q + 1
      else if d < DayFromYear (1970 + q) then 1970 + q - 1 else 1970 + q)"
    by (simp add: getFullYear_def q_def Let_def)
  have s1: "1970 + q + 1 + 1 = 1970 + q + 2" and s2: "1970 + q - 1 + 1 = 1970 + q" by simp_all
  show ?thesis
    unfolding y using lo hi by (simp add: s1 s2)
qed

lemma month_day_spec:
  "n < sum_list ls \<Longrightarrow>
   fst (month_day n ls) < length ls \<and>
   snd (month_day n ls) < ls ! fst (month_day n ls) \<and>
   sum_list (take (fst (month_day n ls)) ls) + snd (month_day n ls) = n"
proof (induction ls arbitrary: n)
  case Nil
  then show ?case by simp
next
  case (Cons l ls)
  show ?case
  proof (cases "n < l")
    case True
    then show ?thesis by simp
  next
    case False
    with Cons.prems have "n - l < sum_list ls" by simp
    from Cons.IH [OF this] False show ?thesis
      by (simp add: split_def Let_def) linarith
  qed
qed

lemma sum_month_lengths:
  "int (sum_list (month_lengths y)) = DayFromYear (y + 1) - DayFromYear y"
  by (simp add: month_lengths_def DayFromYear_Suc)

lemma length_month_lengths [simp]: "length (month_lengths y) = 12"
  by (simp add: month_lengths_def)

lemma dayOfYear_less: "dayOfYear d < sum_list (month_lengths (getFullYear d))"
proof -
  have "int (dayOfYear d) < int (sum_list (month_lengths (getFullYear d)))"
    using getFullYear_bounds [of d] by (simp add: dayOfYear_def sum_month_lengths)
  then show ?thesis by simp
qed

lemma getMonth_less: "getMonth d < 12"
  using month_day_spec [OF dayOfYear_less, of d] by (simp add: getMonth_def)

lemma getDate_bounds:
  "1 \<le> getDate d \<and> getDate d \<le> month_lengths (getFullYear d) ! getMonth d"
  using month_day_spec [OF dayOfYear_less, of d] by (simp add: getMonth_def getDate_def)


lemma DayFromYear_mono: "y \<le> y' \<Longrightarrow> DayFromYear y \<le> DayFromYear y'"
proof (induction y' rule: int_ge_induct)
  case base
  then show ?case by simp
next
  case (step i)
  then show ?case by (simp add: DayFromYear_Suc)
qed

lemma getFullYear_ge: "DayFromYear y \<le> d \<Longrightarrow> y \<le> getFullYear d"
proof (rule ccontr)
  assume d: "DayFromYear y \<le> d" and "\<not> y \<le> getFullYear d"
  then have "getFullYear d + 1 \<le> y" by simp
  then have "DayFromYear (getFullYear d + 1) \<le> DayFromYear y" by (rule DayFromYear_mono)
  with d getFullYear_bounds [of d] show False by linarith
qed

lemma MakeDay_1_1_1: "MakeDay 1 1 1 = DayFromYear 1"
  by (simp add: MakeDay_def)

section \<open>Characters and decimal numerals\<close>

lemma less_10_cases: "n < (10::nat) \<Longrightarrow> n \<in> {0, 1, 2, 3, 4, 5, 6, 7, 8, 9}"
  by simp arith

lemma digit_char_props:
  "n < 10 \<Longrightarrow> is_digit (digit_char n) \<and> digit_value (digit_char n) = n"
  using less_10_cases [of n] by (auto simp: digit_char_def is_digit_def digit_value_def)

lemma is_digit_props:
  "is_digit c \<Longrightarrow> lower_char c = c \<and> \<not> is_space c \<and> is_word c \<and> c \<noteq> CHR ''-'' \<and> digit_value c < 10"
  by (auto simp: is_digit_def lower_char_def is_space_def is_word_def digit_value_def)

lemma hyphen_props: "lower_char CHR ''-'' = CHR ''-''" "\<not> is_space CHR ''-''"
  by (simp_all add: lower_char_def is_space_def)

lemma toString_digits: "list_all is_digit (toString n)"
proof (induction n rule: toString.induct)
  case (1 n)
  show ?case
  proof (cases "n < 10")
    case True
    then show ?thesis by (simp add: toString.simps [of n] digit_char_props)
  next
    case False
    with 1 show ?thesis by (simp add: toString.simps [of n] digit_char_props)
  qed
qed

lemma parseDigits_snoc: "parseDigits (s @ [c]) = 10 * parseDigits s + digit_value c"
  by (simp add: parseDigits_def)

lemma parseDigits_toString: "parseDigits (toString n) = n"
proof (induction n rule: toString.induct)
  case (1 n)
  show ?case
  proof (cases "n < 10")
    case True
    then show ?thesis by (simp add: toString.simps [of n] parseDigits_def digit_char_props)
  next
    case False
    with 1 show ?thesis
      by (simp add: toString.simps [of n] parseDigits_snoc digit_char_props)
  qed
qed

lemma parseDigits_zeros: "parseDigits (replicate k (CHR ''0'') @ s) = parseDigits s"
proof -
  have "foldl (\<lambda>n c. 10 * n + digit_value c) 0 (replicate k (CHR ''0'')) = 0"
    by (induction k) (simp_all add: digit_value_def)
  then show ?thesis by (simp add: parseDigits_def)
qed

lemma toString_nonempty: "toString n \<noteq> []"
  by (simp add: toString.simps [of n])

lemma length_toString_le: "0 < k \<Longrightarrow> n < 10 ^ k \<Longrightarrow> length (toString n) \<le> k"
proof (induction k arbitrary: n)
  case 0
  then show ?case by simp
next
  case (Suc k)
  show ?case
  proof (cases "n < 10")
    case True
    then show ?thesis by (simp add: toString.simps [of n])
  next
    case False
    with Suc.prems have k: "0 < k" by (cases k) simp_all
    from Suc.prems have "n < 10 ^ k * 10" by simp
    then have "n div 10 < 10 ^ k" by (rule less_mult_imp_div_less)
    from Suc.IH [OF k this] False show ?thesis by (simp add: toString.simps [of n])
  qed
qed

lemma length_toString_gt: "10 ^ k \<le> n \<Longrightarrow> k < length (toString n)"
proof (induction k arbitrary: n)
  case 0
  then show ?case using toString_nonempty [of n] by (cases "toString n") simp_all
next
  case (Suc k)
  have "(10::nat) \<le> 10 ^ Suc k" by simp
  with Suc.prems have n: "\<not> n < 10" by linarith
  from Suc.prems have "10 ^ k * 10 \<le> n" by simp
  then have "10 ^ k \<le> n div 10" by (simp add: less_eq_div_iff_mult_less_eq)
  from Suc.IH [OF this] n show ?case by (simp add: toString.simps [of n])
qed

lemma length_padStart: "length s \<le> k \<Longrightarrow> length (padStart k c s) = k"
  by (simp add: padStart_def)

lemma parseDigits_padStart: "parseDigits (padStart k (CHR ''0'') s) = parseDigits s"
  by (simp add: padStart_def parseDigits_zeros)

lemma digits_padStart: "list_all is_digit s \<Longrightarrow> list_all is_digit (padStart k (CHR ''0'') s)"
proof -
  have "is_digit CHR ''0''" by (simp add: is_digit_def)
  then show "list_all is_digit s \<Longrightarrow> list_all is_digit (padStart k (CHR ''0'') s)"
    by (auto simp: padStart_def list_all_iff)
qed

section \<open>Dates that are already formatted\<close>

lemma trim_id: "s \<noteq> [] \<Longrightarrow> \<not> is_space (hd s) \<Longrightarrow> \<not> is_space (last s) \<Longrightarrow> trim s = s"
proof -
  assume s: "s \<noteq> []" and h: "\<not> is_space (hd s)" and l: "\<not> is_space (last s)"
  from s h have 1: "dropWhile is_space s = s" by (cases s) simp_all
  from s l have 2: "dropWhile is_space (rev s) = rev s"
    by (cases "rev s") (simp_all add: last_rev [symmetric] hd_rev)
  show ?thesis by (simp add: trim_def 1 2)
qed

lemma toLowerCase_id: "(\<And>c. c \<in> set s \<Longrightarrow> lower_char c = c) \<Longrightarrow> toLowerCase s = s"
  by (simp add: toLowerCase_def map_idI)

lemma isoDateMatch_build:
  assumes "length Y = 4" "length M = 2" "length D = 2"
    and "list_all is_digit Y" "list_all is_digit M" "list_all is_digit D"
  shows "isoDateMatch (Y @ ''-'' @ M @ ''-'' @ D) = Some (Y, M, D)"
  using assms by (simp add: isoDateMatch_def nth_append)

lemma isoDateMatch_shape:
  assumes "isoDateMatch s = Some (ys, ms, ds)"
  shows "s = ys @ ''-'' @ ms @ ''-'' @ ds \<and> length ys = 4 \<and> length ms = 2 \<and> length ds = 2 \<and>
         list_all is_digit ys \<and> list_all is_digit ms \<and> list_all is_digit ds"
proof -
  from assms have len: "length s = 10" and 4: "s ! 4 = CHR ''-''" and 7: "s ! 7 = CHR ''-''"
    and ys: "ys = take 4 s" and ms: "ms = take 2 (drop 5 s)" and ds: "ds = drop 8 s"
    and d: "list_all is_digit (take 4 s)" "list_all is_digit (take 2 (drop 5 s))"
      "list_all is_digit (drop 8 s)"
    by (auto simp: isoDateMatch_def split: if_splits)
  from len obtain c0 c1 c2 c3 c4 c5 c6 c7 c8 c9 where s: "s = [c0, c1, c2, c3, c4, c5, c6, c7, c8, c9]"
    by (auto simp: eval_nat_numeral length_Suc_conv)
  have "s = ys @ ''-'' @ ms @ ''-'' @ ds" using 4 7 unfolding ys ms ds s by simp
  then show ?thesis using len d ys ms ds by simp
qed


lemma isoDateMatch_normalized:
  assumes "isoDateMatch s = Some (ys, ms, ds)"
  shows "toLowerCase (trim s) = s" and "s \<noteq> []"
proof -
  from isoDateMatch_shape [OF assms]
  have s: "s = ys @ ''-'' @ ms @ ''-'' @ ds" and len: "length ys = 4" "length ds = 2"
    and d: "list_all is_digit ys" "list_all is_digit ms" "list_all is_digit ds"
    by simp_all
  from len have ne: "ys \<noteq> []" "ds \<noteq> []" by auto
  show "s \<noteq> []" using s by simp
  have "is_digit (hd ys)" using d(1) ne(1) by (cases ys) simp_all
  then have h: "\<not> is_space (hd s)" using s ne(1) is_digit_props by simp
  have "is_digit (last ds)" using d(3) ne(2) by (simp add: list_all_iff)
  then have l: "\<not> is_space (last s)" using s ne(2) is_digit_props by simp
  have "lower_char c = c" if "c \<in> set s" for c
    using that d is_digit_props [of c] hyphen_props(1) unfolding s by (auto simp: list_all_iff)
  then have "toLowerCase s = s" by (rule toLowerCase_id)
  moreover have "trim s = s" using \<open>s \<noteq> []\<close> h l by (rule trim_id)
  ultimately show "toLowerCase (trim s) = s" by simp
qed

lemma int_mod_0: "(int y mod int k = 0) = (y mod k = 0)"
  by (metis zmod_int of_nat_eq_0_iff)

lemma isLeapYear_nat:
  "isLeapYear (int y) = (y mod 4 = 0 \<and> (y mod 100 \<noteq> 0 \<or> y mod 400 = 0))"
proof -
  have "int y mod 400 = 0 \<longleftrightarrow> y mod 400 = 0" "int y mod 100 = 0 \<longleftrightarrow> y mod 100 = 0"
    "int y mod 4 = 0 \<longleftrightarrow> y mod 4 = 0"
    using int_mod_0 [of y 400] int_mod_0 [of y 100] int_mod_0 [of y 4] by simp_all
  then show ?thesis using leap_mods [of "int y"] by (auto simp: isLeapYear_def)
qed

lemma month_cases:
  "1 \<le> m \<Longrightarrow> m \<le> (12::nat) \<Longrightarrow> m \<in> {1, 2, 3, 4, 5, 6, 7, 8, 9, 10, 11, 12}"
  by simp arith

lemma month_lengths_nth:
  "1 \<le> m \<Longrightarrow> m \<le> 12 \<Longrightarrow> month_lengths (int y) ! (m - 1) = days_in_month y m"
  using month_cases [of m]
  by (auto simp: month_lengths_def days_in_month_def isLeapYear_nat)

lemma parse_iso_string:
  assumes "valid_calendar_date y m d"
  shows "isoDateMatch (iso_string y m d) \<noteq> None"
    and "parse_yyyy_MM_dd tza (iso_string y m d) =
         TimeClip (UTC tza (MakeDate (MakeDay (int y) m d) 0))"
proof -
  let ?Y = "padStart 4 (CHR ''0'') (toString y)"
  let ?M = "padStart 2 (CHR ''0'') (toString m)"
  let ?D = "padStart 2 (CHR ''0'') (toString d)"
  from assms have y: "1 \<le> y" "y < 10 ^ 4" and m: "1 \<le> m" "m \<le> 12" and d: "1 \<le> d" "d \<le> days_in_month y m"
    by (simp_all add: valid_calendar_date_def)
  have "d \<le> 31" using d(2) by (simp add: days_in_month_def split: if_splits)
  then have d2: "d < 10 ^ 2" by simp
  have m2: "m < 10 ^ 2" using m(2) by simp
  have len: "length ?Y = 4" "length ?M = 2" "length ?D = 2"
    using length_toString_le [OF _ y(2)] length_toString_le [OF _ m2] length_toString_le [OF _ d2]
    by (simp_all add: length_padStart)
  have dig: "list_all is_digit ?Y" "list_all is_digit ?M" "list_all is_digit ?D"
    by (simp_all add: digits_padStart toString_digits)
  have iso: "isoDateMatch (iso_string y m d) = Some (?Y, ?M, ?D)"
    unfolding iso_string_def using len dig by (rule isoDateMatch_build)
  then show "isoDateMatch (iso_string y m d) \<noteq> None" by simp
  have num: "parseDigits ?Y = y" "parseDigits ?M = m" "parseDigits ?D = d"
    by (simp_all add: parseDigits_padStart parseDigits_toString)
  have "month_lengths (int y) ! (m - 1) = days_in_month y m"
    using m by (rule month_lengths_nth)
  then show "parse_yyyy_MM_dd tza (iso_string y m d) =
      TimeClip (UTC tza (MakeDate (MakeDay (int y) m d) 0))"
    using y(1) m d by (simp add: parse_yyyy_MM_dd_def iso num)
qed

text \<open>
  The local midnight of a day of the years 1 to 9999 is a valid time value in every zone
  whose offset is at most a day.
\<close>

lemma MakeDay_range:
  assumes "valid_calendar_date y m d"
  shows "- 719162 \<le> MakeDay (int y) m d \<and> MakeDay (int y) m d \<le> 2932928"
proof -
  from assms have y: "1 \<le> int y" "int y \<le> 9999" and d: "1 \<le> d" "d \<le> days_in_month y m"
    by (simp_all add: valid_calendar_date_def)
  have lo: "DayFromYear 1 \<le> DayFromYear (int y)" using y(1) by (rule DayFromYear_mono)
  have hi: "DayFromYear (int y) \<le> DayFromYear 9999" using y(2) by (rule DayFromYear_mono)
  have v: "DayFromYear 1 = - 719162" "DayFromYear 9999 = 2932532"
    by (simp_all add: DayFromYear_def)
  have "sum_list (take (m - 1) (month_lengths (int y))) \<le> sum_list (month_lengths (int y))"
    using sum_list_append [of "take (m - 1) (month_lengths (int y))" "drop (m - 1) (month_lengths (int y))"]
    by simp
  moreover have "sum_list (month_lengths (int y)) \<le> 366"
    by (simp add: month_lengths_def)
  ultimately have s: "int (sum_list (take (m - 1) (month_lengths (int y)))) \<le> 366" by simp
  have "d \<le> 31" using d(2) by (simp add: days_in_month_def split: if_splits)
  with d(1) have "1 \<le> int d" "int d \<le> 31" by simp_all
  moreover have "0 \<le> int (sum_list (take (m - 1) (month_lengths (int y))))" by simp
  ultimately show ?thesis
    using lo hi s unfolding MakeDay_def v by linarith
qed

lemma valid_date_isValid:
  assumes "valid_calendar_date y m d" "- msPerDay \<le> tza" "tza \<le> msPerDay"
  shows "isValid (parse_yyyy_MM_dd tza (iso_string y m d))"
proof -
  from MakeDay_range [OF assms(1)]
  have "- 719162 * msPerDay \<le> MakeDay (int y) m d * msPerDay"
    "MakeDay (int y) m d * msPerDay \<le> 2932928 * msPerDay"
    by (simp_all add: msPerDay_def)
  with assms(2,3) show ?thesis
    unfolding parse_iso_string(2) [OF assms(1)]
    by (simp add: isValid_def TimeClip_def UTC_def MakeDate_def MAX_TIME_def msPerDay_def)
qed

lemma parseHumanDate_iso:
  assumes "isoDateMatch s = Some t" "isValid (parse_yyyy_MM_dd tza s)"
  shows "parseHumanDate tza now s = Inr s"
proof -
  obtain ys ms ds where t: "t = (ys, ms, ds)" by (cases t)
  from isoDateMatch_normalized [OF assms(1) [unfolded t]]
  have "toLowerCase (trim s) = s" "s \<noteq> []" .
  then show ?thesis using assms by (simp add: parseHumanDate_def)
qed

lemma parseHumanDate_valid_iso:
  assumes "valid_calendar_date y m d" "- msPerDay \<le> tza" "tza \<le> msPerDay"
  shows "parseHumanDate tza now (iso_string y m d) = Inr (iso_string y m d)"
proof -
  from parse_iso_string(1) [OF assms(1)] obtain t where "isoDateMatch (iso_string y m d) = Some t"
    by blast
  then show ?thesis using valid_date_isValid [OF assms] by (rule parseHumanDate_iso)
qed

section \<open>Evaluation\<close>

lemma toString_less_10: "n < 10 \<Longrightarrow> toString n = [digit_char n]"
  by (simp add: toString.simps [of n])

lemma toString_ge_10:
  "10 \<le> n \<Longrightarrow> toString n = toString (n div 10) @ [digit_char (n mod 10)]"
  by (simp add: toString.simps [of n])

lemmas parser_defs =
  parseHumanDate_def toLowerCase_def trim_def is_space_def lower_char_def isoDateMatch_def
  is_digit_def is_word_def nextDayMatch_def fromNowMatch_def additionMatch_def lit_def spaces1_def
  spaces0_def unit_alt_def DAY_FUNCTIONS_def WORD_TO_NUMBER_def inherited_def quantity_of_def
  parseInt_def parseDigits_def digit_value_def unit_duration_def unable_def parse_yyyy_MM_dd_def
  isValid_def

lemmas date_defs =
  format_def format_yyyy_MM_dd_def add_def addDays_def nextDay_def TimeClip_def MAX_TIME_def
  msPerDay_def LocalTime_def UTC_def Day_def TimeWithinDay_def MakeDate_def localDay_def
  systemTime_def MakeDay_def DayFromYear_def getFullYear_def getMonth_def getDate_def getDay_def dayOfYear_def
  month_lengths_def isLeapYear_def addLeadingZeros_def padStart_def toString_less_10
  toString_ge_10 digit_char_def

section \<open>Time values and local days\<close>

lemma Day_shift: "Day (t + k * msPerDay) = Day t + k"
  by (simp add: Day_def msPerDay_def)

lemma localDay_shift: "localDay tza (t + k * msPerDay) = localDay tza t + k"
  using Day_shift [of "t + tza" k] by (simp add: localDay_def LocalTime_def algebra_simps)

lemma addDays_Date:
  "addDays tza (Date t) k = (if k = 0 then Date t else TimeClip (t + k * msPerDay))"
proof -
  have "UTC tza (MakeDate (localDay tza t + k) (TimeWithinDay (LocalTime tza t))) =
        t + k * msPerDay"
    unfolding UTC_def MakeDate_def localDay_def Day_def TimeWithinDay_def LocalTime_def
    using div_mult_mod_eq [of "t + tza" msPerDay] by (simp add: algebra_simps)
  then show ?thesis by (simp add: addDays_def)
qed

lemma format_Inr:
  "format tza D = Inr out \<Longrightarrow> \<exists>t. D = Date t \<and> out = format_yyyy_MM_dd (localDay tza t)"
  by (cases D) (simp_all add: format_def)

lemma add_Date:
  "add tza (Date now) dur = Date r \<Longrightarrow> r = now + (days dur + weeks dur * 7) * msPerDay"
  by (auto simp: add_def addDays_Date TimeClip_def split: if_splits)

section \<open>The next weekday\<close>

lemma getDay_range: "0 \<le> getDay d \<and> getDay d \<le> 6"
  by (simp add: getDay_def) 

lemma getDay_shift: "getDay (d + k - getDay d) = k mod 7" "getDay (d + (k - getDay d + 7)) = k mod 7"
proof -
  have "d + 4 = 7 * ((d + 4) div 7) + getDay d" by (simp add: getDay_def)
  then have 1: "d + k - getDay d + 4 = k + 7 * ((d + 4) div 7)" by linarith
  show "getDay (d + k - getDay d) = k mod 7"
    unfolding getDay_def [of "d + k - getDay d"] 1 by (simp only: mod_mult_self2)
  from 1 have 2: "d + (k - getDay d + 7) + 4 = k + 7 + 7 * ((d + 4) div 7)" by linarith
  show "getDay (d + (k - getDay d + 7)) = k mod 7"
    unfolding getDay_def [of "d + (k - getDay d + 7)"] 2 by (simp only: mod_mult_self2 mod_add_self2)
qed

text \<open>
  The step of \<open>nextDay\<close> from the local day \<open>d\<close> to the weekday \<open>k\<close>: a number of
  days from 1 to 7 that lands on the weekday and passes no earlier day of that weekday.
\<close>

lemma nextDay_step:
  assumes "0 \<le> k" "k \<le> 6"
    and delta_def: "delta = (if k - getDay d \<le> 0 then k - getDay d + 7 else k - getDay d)"
  shows "1 \<le> delta \<and> delta \<le> 7 \<and> getDay (d + delta) = k \<and>
         (\<forall>e. d < e \<and> e < d + delta \<longrightarrow> getDay e \<noteq> k)"
proof -
  have range: "1 \<le> delta" "delta \<le> 7" using getDay_range [of d] assms(1,2) by (auto simp: delta_def)
  have k: "k mod 7 = k" using assms(1,2) by simp
  have g: "getDay (d + delta) = k"
    unfolding delta_def using getDay_shift [of d k] k by (auto simp: algebra_simps)
  have "getDay e \<noteq> k" if "d < e" "e < d + delta" for e
  proof
    assume "getDay e = k"
    with g have "(d + delta + 4) mod 7 = (e + 4) mod 7" by (simp add: getDay_def)
    then have "7 dvd (d + delta + 4) - (e + 4)" by (simp only: mod_eq_dvd_iff)
    moreover have "(d + delta + 4) - (e + 4) = d + delta - e" by simp
    ultimately have "7 dvd d + delta - e" by (simp only:)
    moreover have "0 < d + delta - e" "d + delta - e < 7" using that range by simp_all
    ultimately show False by (meson zdvd_not_zless)
  qed
  then show ?thesis using range g by blast
qed

lemma nextDay_Date:
  assumes "nextDay tza (Date now) k = Date r" "0 \<le> k" "k \<le> 6"
  shows "localDay tza now < localDay tza r \<and> localDay tza r \<le> localDay tza now + 7 \<and>
         getDay (localDay tza r) = k \<and>
         (\<forall>d. localDay tza now < d \<and> d < localDay tza r \<longrightarrow> getDay d \<noteq> k)"
proof -
  define d where "d = localDay tza now"
  define delta where "delta = (if k - getDay d \<le> 0 then k - getDay d + 7 else k - getDay d)"
  note step = nextDay_step [OF assms(2,3) delta_def]
  from assms(1) step have "r = now + delta * msPerDay"
    by (auto simp: nextDay_def addDays_Date TimeClip_def Let_def delta_def d_def split: if_splits)
  then have "localDay tza r = d + delta" by (simp add: localDay_shift d_def)
  with step show ?thesis unfolding d_def [symmetric] by simp
qed

lemma DAY_FUNCTIONS_day: "DAY_FUNCTIONS w = Some (Own_NextDay day) \<Longrightarrow> 0 \<le> day \<and> day \<le> 6"
  by (auto simp: DAY_FUNCTIONS_def inherited_def split: if_splits option.splits)

lemma unit_duration_nonneg: "0 \<le> days (unit_duration u q) \<and> 0 \<le> weeks (unit_duration u q)"
  by (simp add: unit_duration_def)

lemma weekdays_parse:
  "list_all (\<lambda>(name, k).
      let n = toLowerCase (trim (''next '' @ name)) in
      n \<noteq> [] \<and> isoDateMatch n = None \<and> n \<noteq> ''today'' \<and> n \<noteq> ''tomorrow'' \<and>
      n \<noteq> ''yesterday'' \<and> n \<noteq> ''next week'' \<and> 0 \<le> k \<and> k \<le> 6 \<and>
      (case nextDayMatch n of
         Some w \<Rightarrow> DAY_FUNCTIONS w = Some (Own_NextDay k)
       | None \<Rightarrow> False)) weekdays"
  by code_simp

lemma parseHumanDate_next_weekday:
  assumes "(name, k) \<in> set weekdays"
  shows "parseHumanDate tza now (''next '' @ name) = format tza (nextDay tza (Date now) k)"
    and "0 \<le> k \<and> k \<le> 6"
proof -
  define n where "n = toLowerCase (trim (''next '' @ name))"
  from weekdays_parse assms
  have n: "n \<noteq> []" "isoDateMatch n = None" "n \<noteq> ''today''" "n \<noteq> ''tomorrow''"
      "n \<noteq> ''yesterday''" "n \<noteq> ''next week''"
    and k: "0 \<le> k \<and> k \<le> 6"
    and w: "case nextDayMatch n of Some w \<Rightarrow> DAY_FUNCTIONS w = Some (Own_NextDay k) | None \<Rightarrow> False"
    unfolding list_all_iff n_def Let_def by fastforce+
  from w obtain w where "nextDayMatch n = Some w" "DAY_FUNCTIONS w = Some (Own_NextDay k)"
    by (cases "nextDayMatch n") simp_all
  then show "parseHumanDate tza now (''next '' @ name) = format tza (nextDay tza (Date now) k)"
    using n unfolding parseHumanDate_def n_def [symmetric] Let_def by simp
  show "0 \<le> k \<and> k \<le> 6" by (rule k)
qed


section \<open>Successful outputs\<close>

lemma add_localDay:
  "add tza (Date now) dur = Date r \<Longrightarrow>
   localDay tza r = localDay tza now + (days dur + weeks dur * 7)"
  using add_Date [of tza now dur r] by (simp add: localDay_shift)

lemma parseHumanDate_Inr:
  assumes "parseHumanDate tza now input = Inr out"
  shows "(\<exists>t. isoDateMatch out = Some t \<and> isValid (parse_yyyy_MM_dd tza out)) \<or>
         (\<exists>r. localDay tza now - 1 \<le> r \<and> out = format_yyyy_MM_dd r)"
proof -
  define n where "n = toLowerCase (trim input)"
  have fmt: "\<exists>r. localDay tza now - 1 \<le> r \<and> out = format_yyyy_MM_dd r"
    if "format tza D = Inr out" "\<And>t. D = Date t \<Longrightarrow> localDay tza now - 1 \<le> localDay tza t" for D
    using format_Inr [OF that(1)] that(2) by blast
  have addq: "localDay tza now - 1 \<le> localDay tza r"
    if "add tza (Date now) (unit_duration u q) = Date r" for u q r
    using add_localDay [OF that] unit_duration_nonneg [of u q] by linarith
  have nd: "localDay tza now - 1 \<le> localDay tza r"
    if "nextDay tza (Date now) day = Date r" "0 \<le> day \<and> day \<le> 6" for day r
    using nextDay_Date [OF that(1)] that(2) by simp
  show ?thesis
  proof (cases "isoDateMatch n")
    case (Some t)
    with assms have "out = n" "isValid (parse_yyyy_MM_dd tza n)"
      unfolding parseHumanDate_def n_def [symmetric] Let_def by (auto split: if_splits)
    with Some show ?thesis by blast
  next
    case None
    from assms None show ?thesis
      unfolding parseHumanDate_def n_def [symmetric] Let_def
      by (auto split: if_splits option.splits property.splits prod.splits
          intro!: fmt dest: add_localDay addq nd DAY_FUNCTIONS_day)
  qed
qed

lemma format_iso_string:
  "1 \<le> getFullYear d \<Longrightarrow>
   format_yyyy_MM_dd d = iso_string (nat (getFullYear d)) (getMonth d + 1) (getDate d)"
  by (simp add: format_yyyy_MM_dd_def iso_string_def addLeadingZeros_def Let_def)

lemma getDate_le_31: "getDate d \<le> 31"
proof -
  have "month_lengths y ! m \<le> 31" if "m < 12" for y m
    using that month_cases [of "m + 1"] by (auto simp: month_lengths_def)
  from this [OF getMonth_less] getDate_bounds [of d] show ?thesis
    using order_trans by blast
qed

lemma length_format:
  assumes "1 \<le> getFullYear d" "length (format_yyyy_MM_dd d) = 10"
  shows "getFullYear d \<le> 9999"
proof (rule ccontr)
  assume "\<not> getFullYear d \<le> 9999"
  then have "10 ^ 4 \<le> nat (getFullYear d)" by simp
  from length_toString_gt [OF this]
  have "4 < length (padStart 4 (CHR ''0'') (toString (nat (getFullYear d))))"
    by (simp add: padStart_def)
  moreover have "length (padStart 2 (CHR ''0'') (toString (getMonth d + 1))) = 2"
    using getMonth_less [of d] by (intro length_padStart length_toString_le) simp_all
  moreover have "length (padStart 2 (CHR ''0'') (toString (getDate d))) = 2"
    using getDate_le_31 [of d] by (intro length_padStart length_toString_le) simp_all
  ultimately show False
    using assms(2) by (simp add: format_iso_string [OF assms(1)] iso_string_def)
qed

lemma valid_civil:
  assumes "1 \<le> getFullYear d" "getFullYear d \<le> 9999"
  shows "valid_calendar_date (nat (getFullYear d)) (getMonth d + 1) (getDate d)"
proof -
  have "month_lengths (int (nat (getFullYear d))) ! (getMonth d + 1 - 1) =
        days_in_month (nat (getFullYear d)) (getMonth d + 1)"
    using getMonth_less [of d] by (intro month_lengths_nth) simp_all
  then show ?thesis
    using assms getMonth_less [of d] getDate_bounds [of d]
    by (auto simp: valid_calendar_date_def)
qed

text \<open>
  Where the fixed point holds. In a zone whose offset is at most a day, every valid
  calendar date written as \<^verbatim>\<open>YYYY-MM-DD\<close> is returned unchanged (lemma
  \<open>parseHumanDate_valid_iso\<close>), and with a clock after 0001-01-01 a successful output of
  ten characters, that is with a year of four digits, is returned unchanged when
  \<open>parseHumanDate\<close> is applied to it again, at any clock reading \<open>now'\<close>.
\<close>

lemma four_digit_output_fixed_point:
  assumes "- msPerDay \<le> tza" "tza \<le> msPerDay" "MakeDay 1 1 1 < localDay tza now"
    and "parseHumanDate tza now input = Inr out" "length out = 10"
  shows "parseHumanDate tza now' out = Inr out"
proof -
  from parseHumanDate_Inr [OF assms(4)]
  consider t where "isoDateMatch out = Some t" "isValid (parse_yyyy_MM_dd tza out)"
    | r where "localDay tza now - 1 \<le> r" "out = format_yyyy_MM_dd r" by blast
  then show ?thesis
  proof cases
    case 1
    then show ?thesis by (rule parseHumanDate_iso)
  next
    case 2
    from assms(3) have "DayFromYear 1 < localDay tza now" unfolding MakeDay_1_1_1 .
    with 2 have "DayFromYear 1 \<le> r" by linarith
    then have y1: "1 \<le> getFullYear r" by (rule getFullYear_ge)
    from assms(5) 2 have "length (format_yyyy_MM_dd r) = 10" by simp
    with y1 have "getFullYear r \<le> 9999" by (rule length_format)
    with y1 have "valid_calendar_date (nat (getFullYear r)) (getMonth r + 1) (getDate r)"
      by (rule valid_civil)
    then show ?thesis
      unfolding 2(2) format_iso_string [OF y1] using assms(1,2) by (rule parseHumanDate_valid_iso)
  qed
qed

text \<open>
  Claim C7. The claim fails on the code at the input \<^verbatim>\<open>3000000 days from now\<close>. Under
  the clock of the tests \<open>parseHumanDate\<close> returns \<^verbatim>\<open>10239-08-09\<close> for it: nothing
  bounds the quantity, and \<^verbatim>\<open>format\<close> prints a year above 9999 with five digits. This
  output is not in the shape \<^verbatim>\<open>YYYY-MM-DD\<close> that the function documents as its return
  value and that its own first regular expression tests, and \<open>parseHumanDate\<close> applied
  to it throws \<^verbatim>\<open>Unable to parse date: 10239-08-09\<close> instead of returning it.
\<close>

theorem parseHumanDate_output_rejected:
  "parseHumanDate 0 systemTime ''3000000 days from now'' = Inr ''10239-08-09'' \<and>
   isoDateMatch ''10239-08-09'' = None \<and>
   parseHumanDate 0 systemTime ''10239-08-09'' =
     Inl (JsError ''Unable to parse date: 10239-08-09'')"
  by (simp add: parser_defs date_defs)

theorem parseHumanDate_output_rejected_witness:
  "\<exists>out. parseHumanDate 0 systemTime ''3000000 days from now'' = Inr out \<and>
         parseHumanDate 0 systemTime out \<noteq> Inr out"
  using parseHumanDate_output_rejected by simp

section \<open>Quantities from now\<close>


lemma spaces1_Some:
  "spaces1 s = Some r \<Longrightarrow> s \<noteq> [] \<and> is_space (hd s) \<and> r = dropWhile is_space s"
  by (cases s) (auto simp: spaces1_def split: if_splits)


lemma unit_alt_Some:
  "unit_alt s = Some (u, r) \<Longrightarrow>
   u \<in> {''day'', ''days'', ''week'', ''weeks''} \<and> s = u @ r"
  by (auto simp: unit_alt_def split: if_splits)

lemma fromNowMatch_parts:
  assumes "fromNowMatch n = Some (q, u)"
  shows "q = takeWhile is_word n" "q \<noteq> []"
    "\<exists>r2. spaces1 (dropWhile is_word n) = Some (u @ r2) \<and> r2 \<noteq> [] \<and> is_space (hd r2)"
    "u \<in> {''day'', ''days'', ''week'', ''weeks''}"
proof -
  from assms obtain r1 r2 r3 where q: "q = takeWhile is_word n" "takeWhile is_word n \<noteq> []"
    and 1: "spaces1 (dropWhile is_word n) = Some r1"
    and 2: "unit_alt r1 = Some (u, r2)"
    and 3: "spaces1 r2 = Some r3"
    by (auto simp: fromNowMatch_def split: if_splits option.splits prod.splits)
  show "q = takeWhile is_word n" "q \<noteq> []" using q by simp_all
  from unit_alt_Some [OF 2] show "u \<in> {''day'', ''days'', ''week'', ''weeks''}" by simp
  from unit_alt_Some [OF 2] spaces1_Some [OF 3] 1
  show "\<exists>r2. spaces1 (dropWhile is_word n) = Some (u @ r2) \<and> r2 \<noteq> [] \<and> is_space (hd r2)"
    by auto
qed












lemma quantity_of_other:
  assumes "q \<noteq> []" "q \<notin> fst ` set number_words" "\<not> is_digit (hd q)"
  shows "quantity_of q = None"
proof -
  from assms(1,3) have "takeWhile is_digit q = []" by (cases q) simp_all
  then have p: "parseInt q = None" by (simp add: parseInt_def)
  from assms(2) have "WORD_TO_NUMBER q = inherited q"
    by (simp add: WORD_TO_NUMBER_def number_words_def)
  then show ?thesis using p
    by (simp add: quantity_of_def inherited_def)
qed







text \<open>
  The last time value is the first millisecond of 275760-09-13. At the clock of the
  tests, noon of 2025-11-18, the quantity 99979589 leads to noon of 275760-09-12, the
  last day that can be reached; 99979590 days lead to noon of 275760-09-13, which is
  past the last time value, and \<^verbatim>\<open>format\<close> throws. From the midnight that begins
  2025-11-18 the same quantity reaches the last time value itself.
\<close>

lemma from_now_last_day:
  "parseHumanDate 0 systemTime ''99979589 days from now'' = Inr ''275760-09-12'' \<and>
   parseHumanDate 0 systemTime ''99979590 days from now'' =
     Inl (JsError ''Invalid time value'') \<and>
   parseHumanDate 0 (MakeDate (MakeDay 2025 11 18) 0) ''99979590 days from now'' =
     Inr ''275760-09-13''"
  by (simp add: parser_defs date_defs)

text \<open>
  \<^verbatim>\<open>parseInt\<close> reads the digits a token begins with and drops the rest, so a quantity
  token that is neither a digit string nor one of the ten words is accepted when it
  begins with a digit: \<^verbatim>\<open>2x days from now\<close> is read as two days from now.
\<close>

lemma from_now_leading_digits:
  "fromNowMatch (toLowerCase (trim ''2x days from now'')) = Some (''2x'', ''days'') \<and>
   \<not> list_all is_digit ''2x'' \<and> ''2x'' \<notin> fst ` set number_words \<and>
   parseHumanDate 0 systemTime ''2x days from now'' = Inr ''2025-11-20''"
  by (simp add: parser_defs date_defs number_words_def)

section \<open>Inputs that match no pattern\<close>

lemma includes_str_append: "includes_str (p @ s) s"
proof -
  have "length p \<in> set [0..<Suc (length (p @ s))]" by simp
  moreover have "take (length s) (drop (length p) (p @ s)) = s" by simp
  ultimately show ?thesis unfolding includes_str_def list_ex_iff by blast
qed

lemma parseDigits_bound: "list_all is_digit s \<Longrightarrow> parseDigits s < 10 ^ length s"
proof (induction s rule: rev_induct)
  case Nil
  then show ?case by (simp add: parseDigits_def)
next
  case (snoc c s)
  then have "parseDigits s < 10 ^ length s" "digit_value c < 10"
    using is_digit_props [of c] by simp_all
  then show ?case by (simp add: parseDigits_snoc)
qed

lemma weekday_keys:
  "map (toLowerCase \<circ> fst) weekdays =
     [''monday'', ''tuesday'', ''wednesday'', ''thursday'', ''friday'', ''saturday'', ''sunday'']"
  by code_simp

lemma DAY_FUNCTIONS_None:
  assumes "w \<notin> set (map (toLowerCase \<circ> fst) weekdays)" "w \<noteq> ''constructor''" "w \<noteq> ''__proto__''"
  shows "DAY_FUNCTIONS w = None"
  using assms unfolding weekday_keys by (simp add: DAY_FUNCTIONS_def inherited_def)

lemma parse_invalid:
  assumes "isoDateMatch n = Some (ys, ms, ds)"
    "\<not> valid_calendar_date (parseDigits ys) (parseDigits ms) (parseDigits ds)"
  shows "\<not> isValid (parse_yyyy_MM_dd tza n)"
proof -
  from isoDateMatch_shape [OF assms(1)] have "length ys = 4" "list_all is_digit ys" by simp_all
  with parseDigits_bound [of ys] have y: "parseDigits ys \<le> 9999" by simp
  have "month_lengths (int (parseDigits ys)) ! (parseDigits ms - 1) =
          days_in_month (parseDigits ys) (parseDigits ms)"
    if "1 \<le> parseDigits ms" "parseDigits ms \<le> 12"
    using that by (rule month_lengths_nth)
  with assms(2) y show ?thesis
    by (auto simp: parse_yyyy_MM_dd_def assms(1) isValid_def valid_calendar_date_def Let_def)
qed

text \<open>
  Claim C6, amended. Let \<open>n\<close> be the trimmed, lower-cased input. (1) When \<open>n\<close> is empty
  (the input is empty or white space only), \<open>parseHumanDate\<close> throws an Error whose
  message is exactly \<^verbatim>\<open>Unable to parse date: \<close>, without the input. (2) When \<open>n\<close> is
  not empty and matches none of the recognized patterns, \<open>parseHumanDate\<close> throws an
  Error whose message is \<^verbatim>\<open>Unable to parse date: \<close> followed by the original input,
  so the message contains the input. Nothing is stated for two kinds of such input:
  \<^verbatim>\<open>next <word>\<close> where the word is \<^verbatim>\<open>constructor\<close> or \<^verbatim>\<open>__proto__\<close>, and
  \<^verbatim>\<open><token> <day(s)|week(s)> from now\<close> where the token begins with a digit.
  (3) When \<open>n\<close> has the shape \<^verbatim>\<open>YYYY-MM-DD\<close> and is not a valid calendar date,
  \<open>parseHumanDate\<close> throws the same Error with the original input.
\<close>

theorem unrecognized_input_fails:
  "(toLowerCase (trim input) = [] \<longrightarrow>
      parseHumanDate tza now input = Inl (JsError ''Unable to parse date: '')) \<and>
   (toLowerCase (trim input) \<noteq> [] \<and> \<not> recognized (toLowerCase (trim input)) \<and>
    (\<forall>w. nextDayMatch (toLowerCase (trim input)) = Some w \<longrightarrow>
         w \<noteq> ''constructor'' \<and> w \<noteq> ''__proto__'') \<and>
    (\<forall>q u. fromNowMatch (toLowerCase (trim input)) = Some (q, u) \<longrightarrow> \<not> is_digit (hd q)) \<longrightarrow>
      parseHumanDate tza now input = Inl (JsError (''Unable to parse date: '' @ input)) \<and>
      includes_str (''Unable to parse date: '' @ input) input) \<and>
   (isoDateMatch (toLowerCase (trim input)) = Some (ys, ms, ds) \<and>
    \<not> valid_calendar_date (parseDigits ys) (parseDigits ms) (parseDigits ds) \<longrightarrow>
      parseHumanDate tza now input = Inl (JsError (''Unable to parse date: '' @ input)) \<and>
      includes_str (''Unable to parse date: '' @ input) input)"
proof (intro conjI impI)
  assume "toLowerCase (trim input) = []"
  then show "parseHumanDate tza now input = Inl (JsError ''Unable to parse date: '')"
    by (simp add: parseHumanDate_def)
next
  define n where "n = toLowerCase (trim input)"
  assume "toLowerCase (trim input) \<noteq> [] \<and> \<not> recognized (toLowerCase (trim input)) \<and>
    (\<forall>w. nextDayMatch (toLowerCase (trim input)) = Some w \<longrightarrow>
         w \<noteq> ''constructor'' \<and> w \<noteq> ''__proto__'') \<and>
    (\<forall>q u. fromNowMatch (toLowerCase (trim input)) = Some (q, u) \<longrightarrow> \<not> is_digit (hd q))"
  then have ne: "n \<noteq> []" and nr: "\<not> recognized n"
    and s1: "\<And>w. nextDayMatch n = Some w \<Longrightarrow> w \<noteq> ''constructor'' \<and> w \<noteq> ''__proto__''"
    and s2: "\<And>q u. fromNowMatch n = Some (q, u) \<Longrightarrow> \<not> is_digit (hd q)"
    unfolding n_def by blast+
  from nr have iso: "isoDateMatch n = None"
    and kw: "n \<noteq> ''today''" "n \<noteq> ''tomorrow''" "n \<noteq> ''yesterday''" "n \<noteq> ''next week''"
    and add: "additionMatch n = None"
    unfolding recognized_def de_Morgan_disj not_not by simp_all
  have day: "(case nextDayMatch n of None \<Rightarrow> None | Some dayName \<Rightarrow> DAY_FUNCTIONS dayName) = None"
  proof (cases "nextDayMatch n")
    case (Some w)
    with nr have "w \<notin> set (map (toLowerCase \<circ> fst) weekdays)" by (simp add: recognized_def)
    with s1 [OF Some] have "DAY_FUNCTIONS w = None" by (simp add: DAY_FUNCTIONS_None)
    with Some show ?thesis by simp
  qed simp
  have "parseHumanDate tza now input = Inl (unable input)"
  proof (cases "fromNowMatch n")
    case None
    then show ?thesis
      unfolding parseHumanDate_def n_def [symmetric] Let_def
      using ne iso kw add day by simp
  next
    case (Some qu)
    obtain q u where qu: "qu = (q, u)" by (cases qu)
    from Some qu nr have "q \<notin> fst ` set number_words" by (auto simp: recognized_def)
    with fromNowMatch_parts(2) [OF Some [unfolded qu]] s2 [OF Some [unfolded qu]]
    have "quantity_of q = None" by (intro quantity_of_other)
    with Some qu show ?thesis
      unfolding parseHumanDate_def n_def [symmetric] Let_def
      using ne iso kw day by simp
  qed
  then show "parseHumanDate tza now input = Inl (JsError (''Unable to parse date: '' @ input))"
    by (simp add: unable_def)
  show "includes_str (''Unable to parse date: '' @ input) input" by (rule includes_str_append)
next
  assume a: "isoDateMatch (toLowerCase (trim input)) = Some (ys, ms, ds) \<and>
    \<not> valid_calendar_date (parseDigits ys) (parseDigits ms) (parseDigits ds)"
  then have "\<not> isValid (parse_yyyy_MM_dd tza (toLowerCase (trim input)))"
    using parse_invalid by blast
  moreover from a have "toLowerCase (trim input) \<noteq> []" by (auto simp: isoDateMatch_def)
  ultimately show "parseHumanDate tza now input = Inl (JsError (''Unable to parse date: '' @ input))"
    using a by (simp add: parseHumanDate_def unable_def)
  show "includes_str (''Unable to parse date: '' @ input) input" by (rule includes_str_append)
qed

theorem unrecognized_input_fails_witness:
  "toLowerCase (trim []) = [] \<and>
   parseHumanDate 0 systemTime [] = Inl (JsError ''Unable to parse date: '') \<and>
   toLowerCase (trim ''gibberish'') \<noteq> [] \<and> \<not> recognized (toLowerCase (trim ''gibberish'')) \<and>
   nextDayMatch (toLowerCase (trim ''gibberish'')) = None \<and>
   fromNowMatch (toLowerCase (trim ''gibberish'')) = None \<and>
   parseHumanDate 0 systemTime ''gibberish'' =
     Inl (JsError (''Unable to parse date: '' @ ''gibberish'')) \<and>
   includes_str (''Unable to parse date: '' @ ''gibberish'') ''gibberish'' \<and>
   isoDateMatch (toLowerCase (trim ''2025-13-45'')) = Some (''2025'', ''13'', ''45'') \<and>
   \<not> valid_calendar_date (parseDigits ''2025'') (parseDigits ''13'') (parseDigits ''45'') \<and>
   parseHumanDate 0 systemTime ''2025-13-45'' =
     Inl (JsError (''Unable to parse date: '' @ ''2025-13-45'')) \<and>
   includes_str (''Unable to parse date: '' @ ''2025-13-45'') ''2025-13-45''"
proof -
  have h1: "toLowerCase (trim []) = []" by (simp add: toLowerCase_def trim_def)
  have h2: "toLowerCase (trim ''gibberish'') \<noteq> [] \<and>
            \<not> recognized (toLowerCase (trim ''gibberish'')) \<and>
            nextDayMatch (toLowerCase (trim ''gibberish'')) = None \<and>
            fromNowMatch (toLowerCase (trim ''gibberish'')) = None"
    by code_simp
  have h3: "isoDateMatch (toLowerCase (trim ''2025-13-45'')) = Some (''2025'', ''13'', ''45'')"
    by code_simp
  have h4: "\<not> valid_calendar_date (parseDigits ''2025'') (parseDigits ''13'') (parseDigits ''45'')"
    by (simp add: valid_calendar_date_def parseDigits_def digit_value_def)
  note t1 = unrecognized_input_fails [of "[]" 0 systemTime]
  note t2 = unrecognized_input_fails [of "''gibberish''" 0 systemTime]
  note t3 = unrecognized_input_fails [of "''2025-13-45''" 0 systemTime
      "''2025''" "''13''" "''45''"]
  from t1 h1 have p1: "parseHumanDate 0 systemTime [] =
      Inl (JsError ''Unable to parse date: '')" by blast
  from h2 have s: "(\<forall>w. nextDayMatch (toLowerCase (trim ''gibberish'')) = Some w \<longrightarrow>
         w \<noteq> ''constructor'' \<and> w \<noteq> ''__proto__'') \<and>
    (\<forall>q u. fromNowMatch (toLowerCase (trim ''gibberish'')) = Some (q, u) \<longrightarrow> \<not> is_digit (hd q))"
    by simp
  from t2 h2 s have p2: "parseHumanDate 0 systemTime ''gibberish'' =
      Inl (JsError (''Unable to parse date: '' @ ''gibberish'')) \<and>
      includes_str (''Unable to parse date: '' @ ''gibberish'') ''gibberish''" by blast
  from t3 h3 h4 have p3: "parseHumanDate 0 systemTime ''2025-13-45'' =
      Inl (JsError (''Unable to parse date: '' @ ''2025-13-45'')) \<and>
      includes_str (''Unable to parse date: '' @ ''2025-13-45'') ''2025-13-45''" by blast
  from h1 p1 h2 p2 h3 h4 p3 show ?thesis by blast
qed

theorem unrecognized_input_fails_counterexample:
  "toLowerCase (trim ''  '') = [] \<and>
   parseHumanDate 0 systemTime ''  '' = Inl (JsError ''Unable to parse date: '') \<and>
   \<not> includes_str ''Unable to parse date: '' ''  ''"
  by code_simp

text \<open>
  The table \<^verbatim>\<open>DAY_FUNCTIONS\<close> is an object literal, so the lookup of the word after
  \<^verbatim>\<open>next\<close> also finds what the object inherits. \<^verbatim>\<open>next constructor\<close> matches no
  recognized pattern and yet returns the current date; \<^verbatim>\<open>next __proto__\<close> throws a
  TypeError whose message does not hold the input.
\<close>

lemma next_inherited_property:
  "\<not> recognized (toLowerCase (trim ''next constructor'')) \<and>
   parseHumanDate 0 systemTime ''next constructor'' = Inr ''2025-11-18'' \<and>
   \<not> recognized (toLowerCase (trim ''next __proto__'')) \<and>
   parseHumanDate 0 systemTime ''next __proto__'' =
     Inl (JsError ''dayFunction is not a function'')"
  by code_simp

section \<open>The date parser tool under the executor\<close>

lemma parseHumanDate_throws_Error:
  "parseHumanDate tza now input = Inl e \<Longrightarrow> \<exists>message. e = JsError message"
  unfolding parseHumanDate_def Let_def unable_def format_def
  by (auto split: if_splits option.splits property.splits prod.splits Date.splits)

text \<open>
  Claim C10, amended. When the date parser tool is registered under its name and an
  invocation of it carries a \<^verbatim>\<open>dateString\<close> that \<open>parseHumanDate\<close> rejects, the
  handler catches the Error and returns the object
  \<^verbatim>\<open>{success: false, error: <message>, originalInput: <dateString>}\<close>; the handler's
  promise is fulfilled, so \<open>executeTool\<close> writes that object to the \<open>result\<close> field of
  the Tool Result and leaves the \<open>error\<close> field unset.
\<close>

theorem date_parser_failure_is_a_result:
  "inv_name invocation = ''parse_date'' \<Longrightarrow>
   get tools ''parse_date'' = Some (dateParserTool tza now) \<Longrightarrow>
   getProperty (inv_parameters invocation) ''dateString'' = JStr s \<Longrightarrow>
   parseHumanDate tza now s = Inl (JsError message) \<Longrightarrow>
   execute (dateParserTool tza now) (inv_parameters invocation) =
     Fulfilled (JObj [(''success'', JBool False), (''error'', JStr message),
                      (''originalInput'', JStr s)]) \<and>
   (\<exists>r. executeTool tools clk invocation = Fulfilled r \<and>
        result r = Some (JObj [(''success'', JBool False), (''error'', JStr message),
                               (''originalInput'', JStr s)]) \<and>
        error r = None)"
  by (simp add: executeTool_def executeTool_try_def dateParserTool_def
      dateParserTool_execute_def parseHumanDate_call_def)

theorem date_parser_failure_is_a_result_witness:
  "inv_name \<lparr> inv_id = ''inv-1'', inv_name = ''parse_date'',
              inv_parameters = [(''dateString'', JStr ''gibberish'')] \<rparr> = ''parse_date'' \<and>
   get [(''parse_date'', dateParserTool 0 systemTime)] ''parse_date'' =
     Some (dateParserTool 0 systemTime) \<and>
   getProperty (inv_parameters \<lparr> inv_id = ''inv-1'', inv_name = ''parse_date'',
              inv_parameters = [(''dateString'', JStr ''gibberish'')] \<rparr>) ''dateString'' =
     JStr ''gibberish'' \<and>
   parseHumanDate 0 systemTime ''gibberish'' =
     Inl (JsError ''Unable to parse date: gibberish'') \<and>
   (\<exists>r. executeTool [(''parse_date'', dateParserTool 0 systemTime)]
          \<lparr> startTime = 10, endTime = 12 \<rparr>
          \<lparr> inv_id = ''inv-1'', inv_name = ''parse_date'',
            inv_parameters = [(''dateString'', JStr ''gibberish'')] \<rparr> = Fulfilled r \<and>
        result r = Some (JObj [(''success'', JBool False),
                               (''error'', JStr ''Unable to parse date: gibberish''),
                               (''originalInput'', JStr ''gibberish'')]) \<and>
        error r = None)"
proof -
  let ?inv = "\<lparr> inv_id = ''inv-1'', inv_name = ''parse_date'',
              inv_parameters = [(''dateString'', JStr ''gibberish'')] \<rparr>"
  let ?tools = "[(''parse_date'', dateParserTool 0 systemTime)]"
  have h1: "inv_name ?inv = ''parse_date''" by simp
  have h2: "get ?tools ''parse_date'' = Some (dateParserTool 0 systemTime)"
    by (simp add: get_def)
  have h3: "getProperty (inv_parameters ?inv) ''dateString'' = JStr ''gibberish''"
    by (simp add: getProperty_def)
  have h4: "parseHumanDate 0 systemTime ''gibberish'' =
      Inl (JsError ''Unable to parse date: gibberish'')"
    by code_simp
  from date_parser_failure_is_a_result [OF h1 h2 h3 h4, of "\<lparr> startTime = 10, endTime = 12 \<rparr>"]
    h1 h2 h3 h4
  show ?thesis by blast
qed

theorem date_parser_failure_is_a_result_counterexample:
  "executeTool [(''parse_date'', dateParserTool 0 systemTime)]
     \<lparr> startTime = 10, endTime = 12 \<rparr>
     \<lparr> inv_id = ''inv-1'', inv_name = ''parse_date'',
       inv_parameters = [(''dateString'', JStr ''gibberish'')] \<rparr> =
   Fulfilled \<lparr> res_id = ''inv-1'', res_name = ''parse_date'',
     result = Some (JObj [(''success'', JBool False),
                          (''error'', JStr ''Unable to parse date: gibberish''),
                          (''originalInput'', JStr ''gibberish'')]),
     error = None, durationMs = Some 2 \<rparr>"
proof -
  have "parseHumanDate 0 systemTime ''gibberish'' =
      Inl (JsError ''Unable to parse date: gibberish'')"
    by code_simp
  then show ?thesis
    by (simp add: executeTool_def executeTool_try_def dateParserTool_def get_def
        dateParserTool_execute_def parseHumanDate_call_def getProperty_def Math_round_def)
qed

section \<open>The next weekday is never today\<close>






text \<open>
  The bound on the clock is the exact one. The day 99999993 is a Saturday, seven days
  before the day of the last time value. From its first millisecond \<^verbatim>\<open>next Saturday\<close>
  reaches the last time value and is returned as 275760-09-13; from its noon the date
  seven days later is past the last time value, and \<^verbatim>\<open>format\<close> throws.
\<close>

lemma next_weekday_last_week:
  "getDay 99999993 = 6 \<and>
   MakeDate 99999993 0 + 7 * msPerDay = MAX_TIME \<and>
   parseHumanDate 0 (MakeDate 99999993 0) ''next Saturday'' = Inr ''275760-09-13'' \<and>
   parseHumanDate 0 (MakeDate 99999993 (12 * 3600000)) ''next Saturday'' =
     Inl (JsError ''Invalid time value'')"
proof -
  have "(''Saturday'', 6) \<in> set weekdays" by (simp add: weekdays_def)
  from parseHumanDate_next_weekday(1) [OF this]
  have p: "parseHumanDate tza now ''next Saturday'' = format tza (nextDay tza (Date now) 6)"
    for tza now by simp
  show ?thesis unfolding p by (simp add: date_defs)
qed

end
